theory Spec2Isabelle
  imports Main "HOL-Library.Multiset"
begin

section \<open>Values held by the tables\<close>

text \<open>
  The dashboard (\<^verbatim>\<open>new.py\<close>) is a script that is run from top to bottom once per
  user interaction.  Its data are two CSV files, read and written through pandas.
  The script is modelled with the file store passed explicitly, every Python
  exception as a value of \<open>error\<close>, the widget return values and the system date
  as inputs of the run, and the elements the run renders as its output.
\<close>

datatype error =
    NameError string
  | KeyError
  | ValueError
  | AttributeError
  | FileNotFoundError
  | EmptyDataError
  | ParserError
  | Unsupported

text \<open>
  \<open>Unsupported\<close> marks input outside the fragment of pandas that is modelled
  (a quantity cell that is not an integer); no theorem below relies on it.
\<close>

record date =
  year :: nat
  month :: nat
  day :: nat

text \<open>
  A cell of a DataFrame: a missing value, a Python \<open>str\<close>, a Python \<open>int\<close>,
  or a \<open>datetime.date\<close> object (what \<open>st.date_input\<close> returns).
\<close>

datatype cell = NaN | Str string | Num int | DateV date

subsection \<open>Dates as text\<close>

definition digit_char :: "nat \<Rightarrow> char" where
  "digit_char d = ''0123456789'' ! (d mod 10)"

fun digits :: "nat \<Rightarrow> string" where
  "digits n = (if n < 10 then [digit_char n] else digits (n div 10) @ [digit_char (n mod 10)])"

declare digits.simps [simp del]

definition pad2 :: "nat \<Rightarrow> string" where
  "pad2 n = (if n < 10 then CHR ''0'' # digits n else digits n)"

definition pad4 :: "nat \<Rightarrow> string" where
  "pad4 n = replicate (4 - length (digits n)) (CHR ''0'') @ digits n"

text \<open>\<^verbatim>\<open>datetime.today().strftime('%Y-%m-%d')\<close>, with \<open>%Y\<close> the year in decimal.\<close>

definition strftime_Ymd :: "date \<Rightarrow> string" where
  "strftime_Ymd d = digits (year d) @ ''-'' @ pad2 (month d) @ ''-'' @ pad2 (day d)"

text \<open>\<^verbatim>\<open>str(date)\<close>, that is \<^verbatim>\<open>date.isoformat()\<close>: \<^verbatim>\<open>'%04d-%02d-%02d'\<close>.\<close>

definition isoformat :: "date \<Rightarrow> string" where
  "isoformat d = pad4 (year d) @ ''-'' @ pad2 (month d) @ ''-'' @ pad2 (day d)"

section \<open>The record store: CSV files and DataFrames\<close>

text \<open>
  A CSV file is its header and its lines of fields.  A field is the text that
  \<^verbatim>\<open>to_csv\<close> wrote for a string, or the numeral it wrote for an integer.
  The quoting and escaping of the text format are not modelled, and neither is
  the case of a text that pandas would read back as a number.  The file store
  maps a path to the file at it; directories are not modelled (the directory
  \<^verbatim>\<open>data\<close> is taken to exist).
\<close>

datatype field = FText string | FNum int

record csv_file =
  header :: "string list"
  lines :: "field list list"

type_synonym filesystem = "string \<rightharpoonup> csv_file"

text \<open>
  A DataFrame: its column names and its rows, each row with its index label.
\<close>

record dataframe =
  columns :: "string list"
  entries :: "(nat \<times> cell list) list"

definition index :: "dataframe \<Rightarrow> nat list" where
  "index df = map fst (entries df)"

definition rows_of :: "dataframe \<Rightarrow> cell list list" where
  "rows_of df = map snd (entries df)"

definition len :: "dataframe \<Rightarrow> nat" where
  "len df = length (entries df)"

text \<open>\<^verbatim>\<open>df.empty\<close>: one of the two axes has length 0.\<close>

definition df_empty :: "dataframe \<Rightarrow> bool" where
  "df_empty df = (columns df = [] \<or> entries df = [])"

text \<open>A fresh \<^verbatim>\<open>RangeIndex\<close>: the rows labelled 0, 1, 2, ...\<close>

definition range_index :: "'a list \<Rightarrow> (nat \<times> 'a) list" where
  "range_index xs = zip [0..<length xs] xs"

text \<open>\<^verbatim>\<open>pd.DataFrame(columns=cols)\<close> and \<^verbatim>\<open>pd.DataFrame(data, columns=cols)\<close>.\<close>

definition DataFrame_columns :: "string list \<Rightarrow> dataframe" where
  "DataFrame_columns cols = \<lparr>columns = cols, entries = []\<rparr>"

definition DataFrame :: "cell list list \<Rightarrow> string list \<Rightarrow> dataframe" where
  "DataFrame data cols = \<lparr>columns = cols, entries = range_index data\<rparr>"

subsection \<open>Writing and reading\<close>

text \<open>
  \<^verbatim>\<open>to_csv\<close> writes a missing value as the empty field (\<^verbatim>\<open>na_rep=''\<close>) and a date
  object as its \<^verbatim>\<open>str\<close>.  With \<^verbatim>\<open>index=False\<close> the index labels are not written.
\<close>

fun render :: "cell \<Rightarrow> field" where
  "render NaN = FText []"
| "render (Str s) = FText s"
| "render (Num n) = FNum n"
| "render (DateV d) = FText (isoformat d)"

definition to_csv :: "dataframe \<Rightarrow> string \<Rightarrow> filesystem \<Rightarrow> filesystem" where
  "to_csv df path fs =
     fs(path \<mapsto> \<lparr>header = columns df, lines = map (map render) (rows_of df)\<rparr>)"

text \<open>
  \<^verbatim>\<open>read_csv\<close> reads the fields listed in pandas' default \<^verbatim>\<open>na_values\<close>, the empty
  field among them, as missing values.
\<close>

definition na_values :: "string list" where
  "na_values =
     ['''', ''#N/A'', ''#N/A N/A'', ''#NA'', ''-1.#IND'', ''-1.#QNAN'', ''-NaN'', ''-nan'',
      ''1.#IND'', ''1.#QNAN'', ''<NA>'', ''N/A'', ''NA'', ''NULL'', ''NaN'', ''None'',
      ''n/a'', ''nan'', ''null'']"

text \<open>
  \<open>parse\<close> types each field on its own.  pandas types whole columns; the two agree
  on the tables of \<open>typed_table\<close> below (integers in the quantity column; missing
  values, dates and text that is not number-like in the others).
\<close>

fun parse :: "field \<Rightarrow> cell" where
  "parse (FText s) = (if s \<in> set na_values then NaN else Str s)"
| "parse (FNum n) = Num n"

text \<open>A line with fewer fields than the header is filled up with missing values.\<close>

definition parse_line :: "nat \<Rightarrow> field list \<Rightarrow> cell list" where
  "parse_line n l = map parse l @ replicate (n - length l) NaN"

definition read_csv :: "string \<Rightarrow> filesystem \<Rightarrow> error + dataframe" where
  "read_csv path fs =
     (case fs path of
        None \<Rightarrow> Inl FileNotFoundError
      | Some f \<Rightarrow>
          if header f = [] then Inl EmptyDataError
          else if list_ex (\<lambda>l. length (header f) < length l) (lines f) then Inl ParserError
          else Inr \<lparr>columns = header f,
                    entries = range_index (map (parse_line (length (header f))) (lines f))\<rparr>)"

subsection \<open>The file paths and the four accessors of the script\<close>

definition inventory_file :: string where
  "inventory_file = ''data/inventory.csv''"

definition waste_log_file :: string where
  "waste_log_file = ''data/waste_log.csv''"

definition inventory_columns :: "string list" where
  "inventory_columns = [''Item'', ''Quantity'', ''Date Received'', ''Expiry Date'']"

definition waste_columns :: "string list" where
  "waste_columns = [''Item'', ''Quantity Wasted'', ''Reason'', ''Waste Date'']"

text \<open>\<^verbatim>\<open>os.path.exists\<close>\<close>

definition path_exists :: "filesystem \<Rightarrow> string \<Rightarrow> bool" where
  "path_exists fs path = (fs path \<noteq> None)"

definition init_data_files :: "filesystem \<Rightarrow> filesystem" where
  "init_data_files fs =
     (let fs1 = (if \<not> path_exists fs inventory_file
                 then to_csv (DataFrame_columns inventory_columns) inventory_file fs
                 else fs)
      in if \<not> path_exists fs1 waste_log_file
         then to_csv (DataFrame_columns waste_columns) waste_log_file fs1
         else fs1)"

definition load_inventory :: "filesystem \<Rightarrow> error + dataframe" where
  "load_inventory fs = read_csv inventory_file fs"

definition load_waste_log :: "filesystem \<Rightarrow> error + dataframe" where
  "load_waste_log fs = read_csv waste_log_file fs"

definition save_inventory :: "dataframe \<Rightarrow> filesystem \<Rightarrow> filesystem" where
  "save_inventory df fs = to_csv df inventory_file fs"

definition save_waste_log :: "dataframe \<Rightarrow> filesystem \<Rightarrow> filesystem" where
  "save_waste_log df fs = to_csv df waste_log_file fs"

subsection \<open>The DataFrame operations the script uses\<close>

text \<open>
  The cell of a row under a column name; a name that is not a column of the row
  gives a missing value (as reindexing does).
\<close>

definition cell_at :: "string list \<Rightarrow> cell list \<Rightarrow> string \<Rightarrow> cell" where
  "cell_at cols r c = (case map_of (zip cols r) c of None \<Rightarrow> NaN | Some v \<Rightarrow> v)"

text \<open>\<^verbatim>\<open>df[c]\<close>\<close>

definition df_column :: "dataframe \<Rightarrow> string \<Rightarrow> error + cell list" where
  "df_column df c =
     (if c \<in> set (columns df) then Inr (map (\<lambda>r. cell_at (columns df) r c) (rows_of df))
      else Inl KeyError)"

text \<open>\<^verbatim>\<open>Series.unique()\<close>: the distinct values in order of first appearance.\<close>

definition unique :: "cell list \<Rightarrow> cell list" where
  "unique xs = rev (remdups (rev xs))"

text \<open>\<^verbatim>\<open>df.loc[[i]]\<close>: the rows labelled \<open>i\<close>; a label that is not in the index raises.\<close>

definition df_loc :: "dataframe \<Rightarrow> nat \<Rightarrow> error + dataframe" where
  "df_loc df i =
     (if i \<in> set (index df)
      then Inr \<lparr>columns = columns df, entries = filter (\<lambda>e. fst e = i) (entries df)\<rparr>
      else Inl KeyError)"

text \<open>\<^verbatim>\<open>df.drop(index=i)\<close>: the frame without the rows labelled \<open>i\<close>.\<close>

definition df_drop :: "dataframe \<Rightarrow> nat \<Rightarrow> error + dataframe" where
  "df_drop df i =
     (if i \<in> set (index df)
      then Inr \<lparr>columns = columns df, entries = filter (\<lambda>e. fst e \<noteq> i) (entries df)\<rparr>
      else Inl KeyError)"

text \<open>
  \<^verbatim>\<open>pd.concat([a, b], ignore_index=True)\<close>: the columns of \<open>a\<close>, then those of \<open>b\<close>
  that \<open>a\<close> does not have; every row reindexed to them; a fresh index.
\<close>

definition union_columns :: "string list \<Rightarrow> string list \<Rightarrow> string list" where
  "union_columns a b = a @ filter (\<lambda>c. c \<notin> set a) b"

definition reindex :: "string list \<Rightarrow> dataframe \<Rightarrow> cell list list" where
  "reindex cols df = map (\<lambda>r. map (cell_at (columns df) r) cols) (rows_of df)"

definition concat_ignore_index :: "dataframe \<Rightarrow> dataframe \<Rightarrow> dataframe" where
  "concat_ignore_index a b =
     (let cols = union_columns (columns a) (columns b)
      in \<lparr>columns = cols, entries = range_index (reindex cols a @ reindex cols b)\<rparr>)"

subsection \<open>Grouping and summing\<close>

text \<open>
  The order in which \<^verbatim>\<open>groupby\<close> (\<^verbatim>\<open>sort=True\<close>) lists its keys: integers by value,
  strings as Python compares them (by code point).  A column read from a CSV file
  holds keys of one kind; between kinds the model puts integers first.
\<close>

fun str_le :: "string \<Rightarrow> string \<Rightarrow> bool" where
  "str_le [] ys = True"
| "str_le (x # xs) [] = False"
| "str_le (x # xs) (y # ys) =
     ((of_char x :: nat) < of_char y \<or> (x = y \<and> str_le xs ys))"

fun cell_le :: "cell \<Rightarrow> cell \<Rightarrow> bool" where
  "cell_le (Num a) (Num b) = (a \<le> b)"
| "cell_le (Num a) c = True"
| "cell_le (Str a) (Num b) = False"
| "cell_le (Str a) (Str b) = str_le a b"
| "cell_le (Str a) c = True"
| "cell_le (DateV a) (DateV b) = str_le (isoformat a) (isoformat b)"
| "cell_le (DateV a) NaN = True"
| "cell_le (DateV a) c = False"
| "cell_le NaN NaN = True"
| "cell_le NaN c = False"

fun insert_key :: "cell \<Rightarrow> cell list \<Rightarrow> cell list" where
  "insert_key k [] = [k]"
| "insert_key k (x # xs) = (if cell_le k x then k # x # xs else x # insert_key k xs)"

definition sort_keys :: "cell list \<Rightarrow> cell list" where
  "sort_keys ks = foldr insert_key ks []"

text \<open>
  A Series of integers with its labels.
\<close>

type_synonym series = "(cell \<times> int) list"

fun is_Num :: "cell \<Rightarrow> bool" where
  "is_Num (Num n) = True"
| "is_Num c = False"

fun num_of :: "cell \<Rightarrow> int" where
  "num_of (Num n) = n"
| "num_of c = 0"

text \<open>
  \<^verbatim>\<open>df.groupby(key)[val].sum()\<close>.  Rows whose key is missing are left out
  (\<^verbatim>\<open>dropna=True\<close>); the keys of the result are the distinct keys that remain,
  sorted; the value of a key is the sum of \<open>val\<close> over its rows.
\<close>

definition groupby_sum :: "dataframe \<Rightarrow> string \<Rightarrow> string \<Rightarrow> error + series" where
  "groupby_sum df key val =
     (if key \<notin> set (columns df) \<or> val \<notin> set (columns df) then Inl KeyError
      else
        let pairs = map (\<lambda>r. (cell_at (columns df) r key, cell_at (columns df) r val)) (rows_of df);
            kept = filter (\<lambda>p. fst p \<noteq> NaN) pairs
        in if \<not> list_all (\<lambda>p. is_Num (snd p)) kept then Inl Unsupported
           else Inr (map (\<lambda>k. (k, sum_list (map (\<lambda>p. num_of (snd p)) (filter (\<lambda>p. fst p = k) kept))))
                      (sort_keys (remdups (map fst kept)))))"

text \<open>
  \<^verbatim>\<open>sort_values(ascending=False)\<close>.  pandas leaves the order of equal values to the
  sorting algorithm; the model keeps them in their previous order.
\<close>

definition sort_values_desc :: "series \<Rightarrow> series" where
  "sort_values_desc s = sort_key (\<lambda>p. - snd p) s"

text \<open>\<^verbatim>\<open>idxmax()\<close>: the label of the first occurrence of the maximum; raises on an empty Series.\<close>

fun first_max :: "cell \<times> int \<Rightarrow> series \<Rightarrow> cell \<times> int" where
  "first_max b [] = b"
| "first_max b (p # ps) = first_max (if snd b < snd p then p else b) ps"

fun idxmax :: "series \<Rightarrow> error + cell" where
  "idxmax [] = Inl ValueError"
| "idxmax (p # ps) = Inr (fst (first_max p ps))"

text \<open>
  \<^verbatim>\<open>int(s.max())\<close>: the maximum of an empty Series is NaN, which \<^verbatim>\<open>int\<close> refuses.
\<close>

fun int_max :: "series \<Rightarrow> error + int" where
  "int_max [] = Inl ValueError"
| "int_max (p # ps) = Inr (fold max (map snd ps) (snd p))"

section \<open>The script\<close>

subsection \<open>Names, widgets and rendered elements\<close>

text \<open>
  The names the module has bound when the page branches start: the imports, the
  two paths and the five functions.  A run starts from a fresh module namespace.
\<close>

datatype pyval = Module | Class | PathV string | Function | Frame dataframe

definition module_globals :: "(string \<times> pyval) list" where
  "module_globals =
     [(''st'', Module), (''pd'', Module), (''plt'', Module), (''datetime'', Class),
      (''os'', Module),
      (''inventory_file'', PathV inventory_file), (''waste_log_file'', PathV waste_log_file),
      (''init_data_files'', Function), (''load_inventory'', Function),
      (''load_waste_log'', Function), (''save_inventory'', Function),
      (''save_waste_log'', Function)]"

definition lookup_name :: "(string \<times> pyval) list \<Rightarrow> string \<Rightarrow> error + pyval" where
  "lookup_name ns x = (case map_of ns x of None \<Rightarrow> Inl (NameError x) | Some v \<Rightarrow> Inr v)"

datatype page = Home | Inventory | Add | Waste | Analytics | Admin

text \<open>
  What the widgets return in one run.  Each field is named after the widget's key
  or, where it has none, after the variable the script assigns it to.  The
  functions of the script take these values as they come; the combinations that
  Streamlit delivers in one run are those of \<open>one_click\<close> below: a button is True
  only in the run that its own click causes, so a button drawn inside the branch
  of another button is never True in a run in which that branch is taken.
\<close>

record widgets =
  home_btn :: bool
  view_inv :: bool
  add_inv :: bool
  log_waste :: bool
  analytics :: bool
  admin :: bool
  item_name :: string
  quantity :: int
  expiry_date :: date
  btn_add_item :: bool
  sel_item :: cell
  qty :: int
  reason :: string
  btn_log_waste :: bool
  entry_to_delete :: nat
  btn_del_waste :: bool
  view_raw :: bool
  admin_delete :: bool
  delete_from :: string
  sel_index :: nat
  btn_del_inv :: bool
  btn_del_admin_waste :: bool
  admin_reset :: bool
  btn_confirm_reset :: bool
  admin_download :: bool

datatype element =
    Metric string nat
  | MostWasted cell int
  | Info string
  | Success string
  | Warning string
  | Table dataframe
  | BarChart series
  | Download string csv_file

text \<open>
  The outcome of a block of the script: the elements it rendered or the exception
  that ended the run, and the file store it leaves.  What was written before an
  exception stays written.
\<close>

type_synonym outcome = "(error + element list) \<times> filesystem"

definition and_then :: "outcome \<Rightarrow> (filesystem \<Rightarrow> outcome) \<Rightarrow> outcome" where
  "and_then r f =
     (case r of
        (Inl e, fs1) \<Rightarrow> (Inl e, fs1)
      | (Inr els1, fs1) \<Rightarrow>
          (case f fs1 of
             (Inl e, fs2) \<Rightarrow> (Inl e, fs2)
           | (Inr els2, fs2) \<Rightarrow> (Inr (els1 @ els2), fs2)))"

subsection \<open>Home (lines 76-91)\<close>

definition home_page :: "filesystem \<Rightarrow> outcome" where
  "home_page fs =
     (case load_inventory fs of Inl e \<Rightarrow> (Inl e, fs) | Inr inv_df \<Rightarrow>
     (case load_waste_log fs of Inl e \<Rightarrow> (Inl e, fs) | Inr waste_df \<Rightarrow>
        (let metrics = [Metric ''Inventory Items'' (len inv_df),
                        Metric ''Waste Records'' (len waste_df)]
         in if \<not> df_empty waste_df then
              (case groupby_sum waste_df ''Item'' ''Quantity Wasted'' of Inl e \<Rightarrow> (Inl e, fs) | Inr s1 \<Rightarrow>
              (case idxmax (sort_values_desc s1) of Inl e \<Rightarrow> (Inl e, fs) | Inr top_item \<Rightarrow>
              (case groupby_sum waste_df ''Item'' ''Quantity Wasted'' of Inl e \<Rightarrow> (Inl e, fs) | Inr s2 \<Rightarrow>
              (case int_max s2 of Inl e \<Rightarrow> (Inl e, fs) | Inr top_qty \<Rightarrow>
                 (Inr (metrics @ [MostWasted top_item top_qty]), fs)))))
            else (Inr metrics, fs))))"

subsection \<open>Inventory (lines 93-95)\<close>

definition inventory_page :: "filesystem \<Rightarrow> outcome" where
  "inventory_page fs =
     (case load_inventory fs of Inl e \<Rightarrow> (Inl e, fs) | Inr df \<Rightarrow> (Inr [Table df], fs))"

subsection \<open>Add Inventory (lines 97-109)\<close>

definition add_page :: "widgets \<Rightarrow> date \<Rightarrow> filesystem \<Rightarrow> outcome" where
  "add_page w today fs =
     (if btn_add_item w then
        let new_row = DataFrame [[Str (item_name w), Num (quantity w),
                                  Str (strftime_Ymd today), DateV (expiry_date w)]]
                                inventory_columns
        in case load_inventory fs of Inl e \<Rightarrow> (Inl e, fs) | Inr df \<Rightarrow>
             let df' = concat_ignore_index df new_row
             in (Inr [Success ''Item added to inventory.''], save_inventory df' fs)
      else (Inr [], fs))"

subsection \<open>Log Waste (lines 111-141)\<close>

text \<open>The form (lines 113-128).\<close>

definition log_waste_form :: "widgets \<Rightarrow> date \<Rightarrow> filesystem \<Rightarrow> outcome" where
  "log_waste_form w today fs =
     (case load_inventory fs of Inl e \<Rightarrow> (Inl e, fs) | Inr inv_df \<Rightarrow>
     (case df_column inv_df ''Item'' of Inl e \<Rightarrow> (Inl e, fs) | Inr col \<Rightarrow>
        (let items = unique col
         in if length items = 0 then (Inr [Info ''Inventory empty.''], fs)
            else if btn_log_waste w then
              (case load_waste_log fs of Inl e \<Rightarrow> (Inl e, fs) | Inr df \<Rightarrow>
                 (let new_row = DataFrame [[sel_item w, Num (qty w), Str (reason w),
                                            Str (strftime_Ymd today)]]
                                          waste_columns;
                      df' = concat_ignore_index df new_row
                  in (Inr [Success ''Waste logged.''], save_waste_log df' fs)))
            else (Inr [], fs))))"

text \<open>
  The delete section (lines 130-141).  The labels of the select box read the
  columns \<^verbatim>\<open>Item\<close> and \<^verbatim>\<open>Waste Date\<close> of every row.
\<close>

definition delete_waste_entry :: "widgets \<Rightarrow> filesystem \<Rightarrow> outcome" where
  "delete_waste_entry w fs =
     (case load_waste_log fs of Inl e \<Rightarrow> (Inl e, fs) | Inr df \<Rightarrow>
        if \<not> df_empty df then
          if ''Item'' \<notin> set (columns df) \<or> ''Waste Date'' \<notin> set (columns df)
          then (Inl KeyError, fs)
          else
            let i = entry_to_delete w
            in case df_loc df i of Inl e \<Rightarrow> (Inl e, fs) | Inr shown \<Rightarrow>
                 if btn_del_waste w then
                   (case df_drop df i of Inl e \<Rightarrow> (Inl e, fs) | Inr df' \<Rightarrow>
                      (Inr [Table shown, Success ''Deleted successfully.''],
                       save_waste_log df' fs))
                 else (Inr [Table shown], fs)
        else (Inr [Info ''No waste logs to delete.''], fs))"

definition waste_page :: "widgets \<Rightarrow> date \<Rightarrow> filesystem \<Rightarrow> outcome" where
  "waste_page w today fs = and_then (log_waste_form w today fs) (delete_waste_entry w)"

subsection \<open>Waste Analytics (lines 143-160)\<close>

text \<open>
  The branch binds \<^verbatim>\<open>df\<close> and then reads \<^verbatim>\<open>waste_df\<close>, a name it does not bind:
  Python looks it up among the names the module has bound so far.
\<close>

definition analytics_page :: "(string \<times> pyval) list \<Rightarrow> filesystem \<Rightarrow> outcome" where
  "analytics_page ns fs =
     (case load_waste_log fs of Inl e \<Rightarrow> (Inl e, fs) | Inr df \<Rightarrow>
        if df_empty df then (Inr [Info ''No records.''], fs)
        else
          (case lookup_name ns ''waste_df'' of Inl e \<Rightarrow> (Inl e, fs) | Inr v \<Rightarrow>
          (case v of
             Frame waste_df \<Rightarrow>
               (case groupby_sum waste_df ''Item'' ''Quantity Wasted'' of Inl e \<Rightarrow> (Inl e, fs)
                | Inr chart_data \<Rightarrow> (Inr [BarChart chart_data, Table df], fs))
           | _ \<Rightarrow> (Inl AttributeError, fs))))"

subsection \<open>Admin (lines 162-208)\<close>

definition admin_view_data :: "widgets \<Rightarrow> filesystem \<Rightarrow> outcome" where
  "admin_view_data w fs =
     (if view_raw w then
        (case load_inventory fs of Inl e \<Rightarrow> (Inl e, fs) | Inr inv_df \<Rightarrow>
        (case load_waste_log fs of Inl e \<Rightarrow> (Inl e, fs) | Inr waste_df \<Rightarrow>
           (Inr [Table inv_df, Table waste_df], fs)))
      else (Inr [], fs))"

definition admin_delete_entry :: "widgets \<Rightarrow> filesystem \<Rightarrow> outcome" where
  "admin_delete_entry w fs =
     (if admin_delete w then
        if delete_from w = ''Inventory'' then
          (case load_inventory fs of Inl e \<Rightarrow> (Inl e, fs) | Inr df \<Rightarrow>
             if \<not> df_empty df then
               let i = sel_index w
               in case df_loc df i of Inl e \<Rightarrow> (Inl e, fs) | Inr shown \<Rightarrow>
                    if btn_del_inv w then
                      (case df_drop df i of Inl e \<Rightarrow> (Inl e, fs) | Inr df' \<Rightarrow>
                         (Inr [Table shown, Success ''Deleted.''], save_inventory df' fs))
                    else (Inr [Table shown], fs)
             else (Inr [Info ''Inventory is empty.''], fs))
        else
          (case load_waste_log fs of Inl e \<Rightarrow> (Inl e, fs) | Inr df \<Rightarrow>
             if \<not> df_empty df then
               let i = sel_index w
               in case df_loc df i of Inl e \<Rightarrow> (Inl e, fs) | Inr shown \<Rightarrow>
                    if btn_del_admin_waste w then
                      (case df_drop df i of Inl e \<Rightarrow> (Inl e, fs) | Inr df' \<Rightarrow>
                         (Inr [Table shown, Success ''Deleted.''], save_waste_log df' fs))
                    else (Inr [Table shown], fs)
             else (Inr [Info ''Waste log is empty.''], fs))
      else (Inr [], fs))"

definition admin_reset_all :: "widgets \<Rightarrow> filesystem \<Rightarrow> outcome" where
  "admin_reset_all w fs =
     (if admin_reset w then
        if btn_confirm_reset w then
          (Inr [Warning ''Deletes ALL data.'', Success ''All data cleared.''],
           save_waste_log (DataFrame_columns waste_columns)
             (save_inventory (DataFrame_columns inventory_columns) fs))
        else (Inr [Warning ''Deletes ALL data.''], fs)
      else (Inr [], fs))"

definition admin_download_csv :: "widgets \<Rightarrow> filesystem \<Rightarrow> outcome" where
  "admin_download_csv w fs =
     (if admin_download w then
        (case load_inventory fs of Inl e \<Rightarrow> (Inl e, fs) | Inr inv_df \<Rightarrow>
        (case load_waste_log fs of Inl e \<Rightarrow> (Inl e, fs) | Inr waste_df \<Rightarrow>
           (Inr [Download ''inventory.csv''
                   \<lparr>header = columns inv_df, lines = map (map render) (rows_of inv_df)\<rparr>,
                 Download ''waste_log.csv''
                   \<lparr>header = columns waste_df, lines = map (map render) (rows_of waste_df)\<rparr>], fs)))
      else (Inr [], fs))"

definition admin_page :: "widgets \<Rightarrow> filesystem \<Rightarrow> outcome" where
  "admin_page w fs =
     and_then (and_then (and_then (admin_view_data w fs) (admin_delete_entry w))
                 (admin_reset_all w)) (admin_download_csv w)"

subsection \<open>One run of the script\<close>

text \<open>
  The session keeps the active page between runs; a new session has none and
  starts at Home (lines 11-12).  The sidebar buttons are read in order, the last
  pressed one winning (lines 62-73).
\<close>

definition navigate :: "page option \<Rightarrow> widgets \<Rightarrow> page" where
  "navigate session w =
     (let p0 = (case session of None \<Rightarrow> Home | Some p \<Rightarrow> p);
          p1 = (if home_btn w then Home else p0);
          p2 = (if view_inv w then Inventory else p1);
          p3 = (if add_inv w then Add else p2);
          p4 = (if log_waste w then Waste else p3);
          p5 = (if analytics w then Analytics else p4)
      in if admin w then Admin else p5)"

definition run_page :: "page \<Rightarrow> widgets \<Rightarrow> date \<Rightarrow> filesystem \<Rightarrow> outcome" where
  "run_page p w today fs =
     (case p of
        Home \<Rightarrow> home_page fs
      | Inventory \<Rightarrow> inventory_page fs
      | Add \<Rightarrow> add_page w today fs
      | Waste \<Rightarrow> waste_page w today fs
      | Analytics \<Rightarrow> analytics_page module_globals fs
      | Admin \<Rightarrow> admin_page w fs)"

definition script :: "page option \<Rightarrow> widgets \<Rightarrow> date \<Rightarrow> filesystem \<Rightarrow> outcome \<times> page" where
  "script session w today fs =
     (let p = navigate session w
      in (run_page p w today (init_data_files fs), p))"

section \<open>Predicates used to state the properties\<close>













text \<open>
  What Streamlit delivers: \<^verbatim>\<open>st.button\<close> returns True only in the run that its own
  click causes, so at most one of the buttons of the script is True in a run.
\<close>

definition pressed :: "widgets \<Rightarrow> bool list" where
  "pressed w =
     [home_btn w, view_inv w, add_inv w, log_waste w, analytics w, admin w,
      btn_add_item w, btn_log_waste w, btn_del_waste w,
      view_raw w, admin_delete w, btn_del_inv w, btn_del_admin_waste w,
      admin_reset w, btn_confirm_reset w, admin_download w]"

definition one_click :: "widgets \<Rightarrow> bool" where
  "one_click w = (length (filter (\<lambda>b. b) (pressed w)) \<le> 1)"

text \<open>The file at a path exists and its header is the given list of columns.\<close>

definition has_columns :: "filesystem \<Rightarrow> string \<Rightarrow> string list \<Rightarrow> bool" where
  "has_columns fs path cols = (case fs path of None \<Rightarrow> False | Some f \<Rightarrow> header f = cols)"

definition schema_ok :: "filesystem \<Rightarrow> bool" where
  "schema_ok fs =
     (has_columns fs inventory_file inventory_columns \<and>
      has_columns fs waste_log_file waste_columns)"

definition absent_or_schema :: "filesystem \<Rightarrow> bool" where
  "absent_or_schema fs =
     ((fs inventory_file = None \<or> has_columns fs inventory_file inventory_columns) \<and>
      (fs waste_log_file = None \<or> has_columns fs waste_log_file waste_columns))"

text \<open>
  The frame that shows the single row at position \<open>i\<close>, and the frame without the
  row at position \<open>i\<close>, freshly indexed.
\<close>

definition row_shown :: "dataframe \<Rightarrow> nat \<Rightarrow> dataframe" where
  "row_shown df i = \<lparr>columns = columns df, entries = [(i, rows_of df ! i)]\<rparr>"

definition without_row :: "nat \<Rightarrow> dataframe \<Rightarrow> dataframe" where
  "without_row i df =
     \<lparr>columns = columns df,
      entries = range_index (take i (rows_of df) @ drop (Suc i) (rows_of df))\<rparr>"

text \<open>
  The total quantity wasted of an item: the sum of \<^verbatim>\<open>Quantity Wasted\<close> over the rows
  of the frame whose \<^verbatim>\<open>Item\<close> is that item.
\<close>

definition item_total :: "dataframe \<Rightarrow> cell \<Rightarrow> int" where
  "item_total df k =
     sum_list (map (\<lambda>r. num_of (cell_at (columns df) r ''Quantity Wasted''))
                   (filter (\<lambda>r. cell_at (columns df) r ''Item'' = k) (rows_of df)))"

definition items_of :: "dataframe \<Rightarrow> cell set" where
  "items_of df = {k. k \<noteq> NaN \<and> k \<in> (\<lambda>r. cell_at (columns df) r ''Item'') ` set (rows_of df)}"

section \<open>Example states\<close>

definition no_input :: widgets where
  "no_input =
     \<lparr>home_btn = False, view_inv = False, add_inv = False, log_waste = False,
      analytics = False, admin = False, item_name = [], quantity = 1,
      expiry_date = \<lparr>year = 2024, month = 6, day = 1\<rparr>, btn_add_item = False,
      sel_item = NaN, qty = 1, reason = [], btn_log_waste = False, entry_to_delete = 0,
      btn_del_waste = False, view_raw = False, admin_delete = False,
      delete_from = ''Inventory'', sel_index = 0, btn_del_inv = False,
      btn_del_admin_waste = False, admin_reset = False, btn_confirm_reset = False,
      admin_download = False\<rparr>"

definition example_today :: date where
  "example_today = \<lparr>year = 2024, month = 2, day = 1\<rparr>"

definition example_inventory :: csv_file where
  "example_inventory =
     \<lparr>header = inventory_columns,
      lines = [[FText ''Rice'', FNum 10, FText ''2024-01-01'', FText ''2024-06-01''],
               [FText ''Beans'', FNum 4, FText ''2024-01-15'', FText ''2024-07-01'']]\<rparr>"

definition example_waste :: csv_file where
  "example_waste =
     \<lparr>header = waste_columns,
      lines = [[FText ''Rice'', FNum 5, FText ''expired'', FText ''2024-02-01''],
               [FText ''Beans'', FNum 5, FText ''expired'', FText ''2024-02-01''],
               [FText ''Rice'', FNum 2, FText [], FText ''2024-02-03'']]\<rparr>"

definition example_fs :: filesystem where
  "example_fs = [inventory_file \<mapsto> example_inventory, waste_log_file \<mapsto> example_waste]"

text \<open>The two example tables as \<open>read_csv\<close> returns them.\<close>

definition example_inventory_df :: dataframe where
  "example_inventory_df =
     \<lparr>columns = inventory_columns,
      entries = [(0, [Str ''Rice'', Num 10, Str ''2024-01-01'', Str ''2024-06-01'']),
                 (1, [Str ''Beans'', Num 4, Str ''2024-01-15'', Str ''2024-07-01''])]\<rparr>"

definition example_waste_df :: dataframe where
  "example_waste_df =
     \<lparr>columns = waste_columns,
      entries = [(0, [Str ''Rice'', Num 5, Str ''expired'', Str ''2024-02-01'']),
                 (1, [Str ''Beans'', Num 5, Str ''expired'', Str ''2024-02-01'']),
                 (2, [Str ''Rice'', Num 2, NaN, Str ''2024-02-03''])]\<rparr>"



text \<open>
  The store after three runs from nothing: initialisation, Add Item with the Item
  Name left empty, and Log Waste for the one item the select box then offers.
\<close>

definition unnamed_item_fs :: filesystem where
  "unnamed_item_fs =
     snd (waste_page (no_input\<lparr>sel_item := NaN, qty := 5, btn_log_waste := True\<rparr>) example_today
       (snd (add_page (no_input\<lparr>btn_add_item := True\<rparr>) example_today
          (init_data_files Map.empty))))"

section \<open>Basic facts about the record store\<close>

lemma paths_distinct: "inventory_file \<noteq> waste_log_file"
  by (simp add: inventory_file_def waste_log_file_def)

lemma map_snd_range_index: "map snd (range_index xs) = xs"
  by (simp add: range_index_def)

lemma map_fst_range_index: "map fst (range_index xs) = [0..<length xs]"
  by (simp add: range_index_def)

lemma length_range_index: "length (range_index xs) = length xs"
  by (simp add: range_index_def)

lemma empty_in_na_values: "[] \<in> set na_values"
  by (simp add: na_values_def)

lemma parse_render_parse: "parse (render (parse x)) = parse x"
  by (cases x) (simp_all add: empty_in_na_values)

lemma length_parse_line: "length l \<le> n \<Longrightarrow> length (parse_line n l) = n"
  by (simp add: parse_line_def)

lemma parse_render_parse_line:
  "map parse (map render (parse_line n l)) = parse_line n l"
  by (simp add: parse_line_def parse_render_parse empty_in_na_values)

lemma parse_line_render_parse_line:
  assumes "length l \<le> n"
  shows "parse_line n (map render (parse_line n l)) = parse_line n l"
proof -
  have "map parse (map render (parse_line n l)) = parse_line n l"
    by (rule parse_render_parse_line)
  moreover have "length (map render (parse_line n l)) = n"
    using assms by (simp add: length_parse_line)
  ultimately show ?thesis
    by (simp add: parse_line_def[of n "map render (parse_line n l)"])
qed

lemma read_csv_InrD:
  assumes "read_csv path fs = Inr df"
  obtains f where "fs path = Some f" and "header f \<noteq> []"
    and "\<forall>l \<in> set (lines f). length l \<le> length (header f)"
    and "df = \<lparr>columns = header f,
               entries = range_index (map (parse_line (length (header f))) (lines f))\<rparr>"
  using assms
  by (auto simp: read_csv_def list_ex_iff not_less split: option.splits if_splits)

section \<open>Loading, saving and loading again\<close>

lemma read_csv_to_csv:
  assumes "read_csv path fs = Inr df"
  shows "read_csv path (to_csv df path fs) = Inr df"
proof -
  from assms obtain f where f: "fs path = Some f" "header f \<noteq> []"
    "\<forall>l \<in> set (lines f). length l \<le> length (header f)"
    "df = \<lparr>columns = header f,
               entries = range_index (map (parse_line (length (header f))) (lines f))\<rparr>"
    by (rule read_csv_InrD)
  let ?n = "length (header f)"
  have rows: "rows_of df = map (parse_line ?n) (lines f)"
    by (simp add: f(4) rows_of_def map_snd_range_index)
  have cols: "columns df = header f" by (simp add: f(4))
  have short: "\<not> list_ex (\<lambda>l. ?n < length l) (map (map render) (rows_of df))"
    using f(3) by (auto simp: rows list_ex_iff length_parse_line)
  have again: "map (parse_line ?n) (map (map render) (rows_of df)) = map (parse_line ?n) (lines f)"
    using f(3) by (simp add: rows parse_line_render_parse_line)
  show ?thesis
    using f(2) short again
    by (simp add: read_csv_def to_csv_def cols f(4))
qed

lemma load_inventory_example: "load_inventory example_fs = Inr example_inventory_df"
  by (simp add: load_inventory_def read_csv_def example_fs_def example_inventory_def
      example_inventory_df_def inventory_columns_def paths_distinct range_index_def
      parse_line_def na_values_def)

lemma load_waste_log_example: "load_waste_log example_fs = Inr example_waste_df"
  by (simp add: load_waste_log_def read_csv_def example_fs_def example_waste_def
      example_waste_df_def waste_columns_def paths_distinct range_index_def
      parse_line_def na_values_def)

text \<open>
  Claim C6.  For every state of a table file, loading the table, saving the loaded
  frame unchanged and loading again gives the frame of the first load.  The first
  load is where fields are normalised (a field such as \<^verbatim>\<open>NA\<close> becomes a missing
  value and is written back as the empty field), so the statement is about the
  loaded content, as the claim is.
\<close>

theorem load_save_load_identity:
  "(load_inventory fs = Inr df \<longrightarrow> load_inventory (save_inventory df fs) = Inr df)
   \<and> (load_waste_log fs = Inr df \<longrightarrow> load_waste_log (save_waste_log df fs) = Inr df)"
  by (simp add: load_inventory_def save_inventory_def load_waste_log_def save_waste_log_def
      read_csv_to_csv)

theorem load_save_load_identity_witness:
  "load_inventory example_fs = Inr example_inventory_df
   \<and> load_inventory (save_inventory example_inventory_df example_fs)
       = Inr example_inventory_df
   \<and> load_waste_log example_fs = Inr example_waste_df
   \<and> load_waste_log (save_waste_log example_waste_df example_fs) = Inr example_waste_df"
  using load_save_load_identity [of example_fs example_inventory_df]
    load_save_load_identity [of example_fs example_waste_df]
    load_inventory_example load_waste_log_example
  by simp

section \<open>Initialisation\<close>

text \<open>
  Claim C8.  \<open>init_data_files\<close> creates a table file that holds only the header
  when the file is absent and leaves a file that exists as it is; this holds for
  each of the two files whatever the state of the other, and no other path is
  touched.
\<close>

theorem init_data_files_creates_or_keeps:
  "(fs inventory_file = None \<longrightarrow>
      init_data_files fs inventory_file = Some \<lparr>header = inventory_columns, lines = []\<rparr>)
   \<and> (\<forall>f. fs inventory_file = Some f \<longrightarrow> init_data_files fs inventory_file = Some f)
   \<and> (fs waste_log_file = None \<longrightarrow>
      init_data_files fs waste_log_file = Some \<lparr>header = waste_columns, lines = []\<rparr>)
   \<and> (\<forall>f. fs waste_log_file = Some f \<longrightarrow> init_data_files fs waste_log_file = Some f)
   \<and> (\<forall>p. p \<noteq> inventory_file \<and> p \<noteq> waste_log_file \<longrightarrow> init_data_files fs p = fs p)"
  using paths_distinct
  by (auto simp: init_data_files_def Let_def path_exists_def to_csv_def DataFrame_columns_def
      rows_of_def)

theorem init_data_files_creates_or_keeps_witness:
  "[waste_log_file \<mapsto> example_waste] inventory_file = None
   \<and> init_data_files [waste_log_file \<mapsto> example_waste] inventory_file
       = Some \<lparr>header = inventory_columns, lines = []\<rparr>
   \<and> [waste_log_file \<mapsto> example_waste] waste_log_file = Some example_waste
   \<and> init_data_files [waste_log_file \<mapsto> example_waste] waste_log_file = Some example_waste
   \<and> init_data_files [waste_log_file \<mapsto> example_waste] ''data/notes.txt''
       = [waste_log_file \<mapsto> example_waste] ''data/notes.txt''"
  using init_data_files_creates_or_keeps [of "[waste_log_file \<mapsto> example_waste]"] paths_distinct
  by (simp add: inventory_file_def waste_log_file_def)

section \<open>Deleting a row by its position\<close>

lemma read_csv_wf:
  assumes "read_csv path fs = Inr df"
  shows "entries df = range_index (rows_of df)"
    and "columns df \<noteq> []"
    and "\<forall>r \<in> set (rows_of df). length r = length (columns df) \<and> map parse (map render r) = r"
proof -
  from assms obtain f where f: "fs path = Some f" "header f \<noteq> []"
    "\<forall>l \<in> set (lines f). length l \<le> length (header f)"
    "df = \<lparr>columns = header f,
               entries = range_index (map (parse_line (length (header f))) (lines f))\<rparr>"
    by (rule read_csv_InrD)
  have rows: "rows_of df = map (parse_line (length (header f))) (lines f)"
    by (simp add: f(4) rows_of_def map_snd_range_index)
  show "entries df = range_index (rows_of df)"
    unfolding rows by (simp add: f(4))
  show "columns df \<noteq> []"
    using f(2) by (simp add: f(4))
  have cols: "columns df = header f"
    by (simp add: f(4))
  show "\<forall>r \<in> set (rows_of df). length r = length (columns df) \<and> map parse (map render r) = r"
    using f(3) parse_render_parse_line by (auto simp: rows cols length_parse_line)
qed

lemma read_csv_to_csv_normal:
  assumes "columns d \<noteq> []"
    and "\<forall>r \<in> set (rows_of d). length r = length (columns d) \<and> map parse (map render r) = r"
  shows "read_csv path (to_csv d path fs) = Inr \<lparr>columns = columns d, entries = range_index (rows_of d)\<rparr>"
proof -
  have short: "\<not> list_ex (\<lambda>l. length (columns d) < length l) (map (map render) (rows_of d))"
    using assms(2) by (auto simp: list_ex_iff)
  have "map (parse_line (length (columns d))) (map (map render) (rows_of d)) = rows_of d"
    using assms(2) by (simp add: parse_line_def map_idI)
  with short assms(1) show ?thesis
    by (simp add: read_csv_def to_csv_def)
qed

lemma filter_neq_zip:
  assumes "length ks = length xs" and "distinct ks" and "i < length xs"
  shows "map snd (filter (\<lambda>e. fst e \<noteq> ks ! i) (zip ks xs)) = take i xs @ drop (Suc i) xs"
  using assms
proof (induction ks xs arbitrary: i rule: list_induct2)
  case Nil
  then show ?case by simp
next
  case (Cons k ks x xs)
  show ?case
  proof (cases i)
    case 0
    have "filter (\<lambda>e. fst e \<noteq> k) (zip ks xs) = zip ks xs"
    proof (rule filter_True, rule ballI)
      fix e assume "e \<in> set (zip ks xs)"
      then have "fst e \<in> set ks"
        using set_zip_leftD[of "fst e" "snd e" ks xs] by simp
      with Cons.prems(1) show "fst e \<noteq> k" by auto
    qed
    with 0 Cons.hyps show ?thesis by simp
  next
    case (Suc j)
    with Cons.prems have j: "j < length xs" and d: "distinct ks" and k: "k \<notin> set ks"
      by simp_all
    from j Cons.hyps have "ks ! j \<in> set ks" by simp
    with k have "k \<noteq> ks ! j" by auto
    with Cons.IH[OF d j] Suc show ?thesis by simp
  qed
qed

lemma filter_eq_zip:
  assumes "length ks = length xs" and "distinct ks" and "i < length xs"
  shows "filter (\<lambda>e. fst e = ks ! i) (zip ks xs) = [(ks ! i, xs ! i)]"
  using assms
proof (induction ks xs arbitrary: i rule: list_induct2)
  case Nil
  then show ?case by simp
next
  case (Cons k ks x xs)
  show ?case
  proof (cases i)
    case 0
    have "filter (\<lambda>e. fst e = k) (zip ks xs) = []"
    proof -
      have "\<forall>e \<in> set (zip ks xs). fst e \<noteq> k"
      proof
        fix e assume "e \<in> set (zip ks xs)"
        then have "fst e \<in> set ks"
        using set_zip_leftD[of "fst e" "snd e" ks xs] by simp
        with Cons.prems(1) show "fst e \<noteq> k" by auto
      qed
      then show ?thesis by (simp add: filter_empty_conv)
    qed
    with 0 show ?thesis by simp
  next
    case (Suc j)
    with Cons.prems have j: "j < length xs" and d: "distinct ks" and k: "k \<notin> set ks"
      by simp_all
    from j Cons.hyps have "ks ! j \<in> set ks" by simp
    with k have "k \<noteq> ks ! j" by auto
    with Cons.IH[OF d j] Suc show ?thesis by simp
  qed
qed

lemma rows_filter_range_index:
  "i < length xs \<Longrightarrow>
   map snd (filter (\<lambda>e. fst e \<noteq> i) (range_index xs)) = take i xs @ drop (Suc i) xs"
  using filter_neq_zip[of "[0..<length xs]" xs i] by (simp add: range_index_def)

lemma filter_eq_range_index:
  "i < length xs \<Longrightarrow> filter (\<lambda>e. fst e = i) (range_index xs) = [(i, xs ! i)]"
  using filter_eq_zip[of "[0..<length xs]" xs i] by (simp add: range_index_def)

lemma loc_drop_save_load:
  assumes "read_csv path fs = Inr df" and "i < len df"
  shows "df_loc df i = Inr (row_shown df i)"
    and "\<exists>d. df_drop df i = Inr d \<and> read_csv path (to_csv d path fs) = Inr (without_row i df)"
proof -
  note wf = read_csv_wf[OF assms(1)]
  have i: "i < length (rows_of df)"
    using assms(2) by (simp add: len_def rows_of_def)
  have mem: "i \<in> set (index df)"
    using i by (simp add: index_def wf(1) map_fst_range_index)
  show "df_loc df i = Inr (row_shown df i)"
    using mem filter_eq_range_index[OF i]
    by (simp add: df_loc_def row_shown_def wf(1)[symmetric])
  let ?d = "\<lparr>columns = columns df, entries = filter (\<lambda>e. fst e \<noteq> i) (entries df)\<rparr>"
  have drop: "df_drop df i = Inr ?d"
    using mem by (simp add: df_drop_def)
  have rows: "rows_of ?d = take i (rows_of df) @ drop (Suc i) (rows_of df)"
    using rows_filter_range_index[OF i] by (simp add: rows_of_def[of ?d] wf(1)[symmetric])
  have sub: "set (rows_of ?d) \<subseteq> set (rows_of df)"
    by (auto simp: rows dest: in_set_takeD in_set_dropD)
  have "read_csv path (to_csv ?d path fs) = Inr \<lparr>columns = columns ?d, entries = range_index (rows_of ?d)\<rparr>"
    by (rule read_csv_to_csv_normal) (use wf(2,3) sub in auto)
  then have "read_csv path (to_csv ?d path fs) = Inr (without_row i df)"
    by (simp add: rows without_row_def)
  with drop show "\<exists>d. df_drop df i = Inr d \<and> read_csv path (to_csv d path fs) = Inr (without_row i df)"
    by blast
qed

lemma without_row_facts:
  assumes "i < len df"
  shows "len (without_row i df) + 1 = len df"
    and "columns (without_row i df) = columns df"
    and "index (without_row i df) = [0..<len df - 1]"
    and "rows_of (without_row i df) = take i (rows_of df) @ drop (Suc i) (rows_of df)"
    and "mset (rows_of (without_row i df)) + {#rows_of df ! i#} = mset (rows_of df)"
    and "\<forall>j<i. rows_of (without_row i df) ! j = rows_of df ! j"
    and "\<forall>j. i \<le> j \<and> Suc j < len df \<longrightarrow> rows_of (without_row i df) ! j = rows_of df ! Suc j"
proof -
  let ?xs = "rows_of df"
  have i: "i < length ?xs"
    using assms by (simp add: len_def rows_of_def)
  have n: "len df = length ?xs"
    by (simp add: len_def rows_of_def)
  show rows: "rows_of (without_row i df) = take i ?xs @ drop (Suc i) ?xs"
    by (simp add: without_row_def rows_of_def[of "\<lparr>columns = _, entries = _\<rparr>"] map_snd_range_index)
  show "len (without_row i df) + 1 = len df"
    using i by (simp add: n without_row_def len_def[of "\<lparr>columns = _, entries = _\<rparr>"] length_range_index)
  show "columns (without_row i df) = columns df"
    by (simp add: without_row_def)
  show "index (without_row i df) = [0..<len df - 1]"
    using i by (simp add: n without_row_def index_def map_fst_range_index min_def)
  have "mset ?xs = mset (take i ?xs @ ?xs ! i # drop (Suc i) ?xs)"
    using id_take_nth_drop[OF i] by simp
  then show "mset (rows_of (without_row i df)) + {#?xs ! i#} = mset ?xs"
    by (simp add: rows)
  show "\<forall>j<i. rows_of (without_row i df) ! j = ?xs ! j"
    using i by (simp add: rows nth_append)
  show "\<forall>j. i \<le> j \<and> Suc j < len df \<longrightarrow> rows_of (without_row i df) ! j = ?xs ! Suc j"
    using i by (auto simp: rows n nth_append min_def)
qed

lemma delete_waste_entry_confirmed:
  assumes "load_waste_log fs = Inr df" and "i < len df"
    and "''Item'' \<in> set (columns df)" and "''Waste Date'' \<in> set (columns df)"
    and "entry_to_delete w = i" and "btn_del_waste w"
  shows "fst (delete_waste_entry w fs) = Inr [Table (row_shown df i), Success ''Deleted successfully.'']"
    and "load_waste_log (snd (delete_waste_entry w fs)) = Inr (without_row i df)"
proof -
  from assms(1) have rd: "read_csv waste_log_file fs = Inr df"
    by (simp add: load_waste_log_def)
  have ne: "\<not> df_empty df"
    using assms(2,3) by (auto simp: df_empty_def len_def)
  from loc_drop_save_load[OF rd assms(2)] obtain d where
    loc: "df_loc df i = Inr (row_shown df i)" and
    d: "df_drop df i = Inr d" "read_csv waste_log_file (to_csv d waste_log_file fs) = Inr (without_row i df)"
    by blast
  show "fst (delete_waste_entry w fs) = Inr [Table (row_shown df i), Success ''Deleted successfully.'']"
    using assms ne loc d(1) by (simp add: delete_waste_entry_def)
  show "load_waste_log (snd (delete_waste_entry w fs)) = Inr (without_row i df)"
    using assms ne loc d by (simp add: delete_waste_entry_def save_waste_log_def load_waste_log_def)
qed

lemma admin_delete_inventory_confirmed:
  assumes "load_inventory fs = Inr df" and "i < len df"
    and "admin_delete w" and "delete_from w = ''Inventory''"
    and "sel_index w = i" and "btn_del_inv w"
  shows "fst (admin_delete_entry w fs) = Inr [Table (row_shown df i), Success ''Deleted.'']"
    and "load_inventory (snd (admin_delete_entry w fs)) = Inr (without_row i df)"
proof -
  from assms(1) have rd: "read_csv inventory_file fs = Inr df"
    by (simp add: load_inventory_def)
  have ne: "\<not> df_empty df"
    using assms(2) read_csv_wf(2)[OF rd] by (auto simp: df_empty_def len_def)
  from loc_drop_save_load[OF rd assms(2)] obtain d where
    loc: "df_loc df i = Inr (row_shown df i)" and
    d: "df_drop df i = Inr d" "read_csv inventory_file (to_csv d inventory_file fs) = Inr (without_row i df)"
    by blast
  show "fst (admin_delete_entry w fs) = Inr [Table (row_shown df i), Success ''Deleted.'']"
    using assms ne loc d(1) by (simp add: admin_delete_entry_def)
  show "load_inventory (snd (admin_delete_entry w fs)) = Inr (without_row i df)"
    using assms ne loc d by (simp add: admin_delete_entry_def save_inventory_def load_inventory_def)
qed

lemma admin_delete_waste_confirmed:
  assumes "load_waste_log fs = Inr df" and "i < len df"
    and "admin_delete w" and "delete_from w \<noteq> ''Inventory''"
    and "sel_index w = i" and "btn_del_admin_waste w"
  shows "fst (admin_delete_entry w fs) = Inr [Table (row_shown df i), Success ''Deleted.'']"
    and "load_waste_log (snd (admin_delete_entry w fs)) = Inr (without_row i df)"
proof -
  from assms(1) have rd: "read_csv waste_log_file fs = Inr df"
    by (simp add: load_waste_log_def)
  have ne: "\<not> df_empty df"
    using assms(2) read_csv_wf(2)[OF rd] by (auto simp: df_empty_def len_def)
  from loc_drop_save_load[OF rd assms(2)] obtain d where
    loc: "df_loc df i = Inr (row_shown df i)" and
    d: "df_drop df i = Inr d" "read_csv waste_log_file (to_csv d waste_log_file fs) = Inr (without_row i df)"
    by blast
  show "fst (admin_delete_entry w fs) = Inr [Table (row_shown df i), Success ''Deleted.'']"
    using assms ne loc d(1) by (simp add: admin_delete_entry_def)
  show "load_waste_log (snd (admin_delete_entry w fs)) = Inr (without_row i df)"
    using assms ne loc d by (simp add: admin_delete_entry_def save_waste_log_def load_waste_log_def)
qed

text \<open>
  The three lemmas above say what each delete branch does in a run in which the
  buttons it tests are True, for a table as \<open>read_csv\<close> returns it: the row at
  position \<open>i\<close> is shown and the table saved loads as \<open>without_row i df\<close>.  The
  branch of the Log Waste page tests one button.  The two branches of the Admin
  panel test a button inside the branch of another button; the section on the
  nested buttons shows that no run of the script takes them.
\<close>

section \<open>Appending a row\<close>


lemma union_columns_same: "union_columns cols cols = cols"
  by (simp add: union_columns_def)




subsection \<open>The text of a date\<close>
















subsection \<open>Reading a date text back\<close>











subsection \<open>Text that is read back as it was written\<close>






section \<open>Add Inventory and Log Waste\<close>




























section \<open>Reset All\<close>

lemma read_csv_header_only:
  "cols \<noteq> [] \<Longrightarrow> fs path = Some \<lparr>header = cols, lines = []\<rparr> \<Longrightarrow>
   read_csv path fs = Inr \<lparr>columns = cols, entries = []\<rparr>"
  by (simp add: read_csv_def range_index_def)

lemma reset_files:
  assumes "admin_reset w" and "btn_confirm_reset w"
  shows "snd (admin_reset_all w fs) inventory_file = Some \<lparr>header = inventory_columns, lines = []\<rparr>"
    and "snd (admin_reset_all w fs) waste_log_file = Some \<lparr>header = waste_columns, lines = []\<rparr>"
  using assms paths_distinct
  by (simp_all add: admin_reset_all_def save_inventory_def save_waste_log_def to_csv_def
      DataFrame_columns_def rows_of_def)

lemma load_after_reset:
  assumes "fs inventory_file = Some \<lparr>header = inventory_columns, lines = []\<rparr>"
    and "fs waste_log_file = Some \<lparr>header = waste_columns, lines = []\<rparr>"
  shows "load_inventory fs = Inr \<lparr>columns = inventory_columns, entries = []\<rparr>"
    and "load_waste_log fs = Inr \<lparr>columns = waste_columns, entries = []\<rparr>"
proof -
  have "inventory_columns \<noteq> []" by (simp add: inventory_columns_def)
  with assms(1) show "load_inventory fs = Inr \<lparr>columns = inventory_columns, entries = []\<rparr>"
    by (simp add: load_inventory_def read_csv_header_only)
  have "waste_columns \<noteq> []" by (simp add: waste_columns_def)
  with assms(2) show "load_waste_log fs = Inr \<lparr>columns = waste_columns, entries = []\<rparr>"
    by (simp add: load_waste_log_def read_csv_header_only)
qed

lemma snd_and_then:
  "snd (and_then r f) = (case fst r of Inl e \<Rightarrow> snd r | Inr els \<Rightarrow> snd (f (snd r)))"
  by (simp add: and_then_def split: prod.splits sum.splits)

lemma admin_view_data_snd: "snd (admin_view_data w fs) = fs"
  by (simp add: admin_view_data_def split: sum.splits)

lemma admin_download_csv_snd: "snd (admin_download_csv w fs) = fs"
  by (simp add: admin_download_csv_def split: sum.splits)

lemma and_then_Nil: "and_then (Inr [], fs) f = f fs"
  by (simp add: and_then_def split: prod.splits sum.splits)

text \<open>
  \<open>reset_files\<close> and \<open>load_after_reset\<close> say what the reset branch writes in a run in
  which \<^verbatim>\<open>Reset All\<close> and \<^verbatim>\<open>Confirm Reset\<close> are both True: each file is its header
  alone and loads as a frame with no rows.  The section on the nested buttons
  shows that no run of the script has both.
\<close>

section \<open>Deleting from the Inventory leaves the Waste Log alone\<close>

lemma admin_delete_inventory_frame:
  "delete_from w = ''Inventory'' \<Longrightarrow>
   snd (admin_delete_entry w fs) waste_log_file = fs waste_log_file"
  using paths_distinct
  by (simp add: admin_delete_entry_def Let_def save_inventory_def to_csv_def split: sum.splits)

lemma admin_delete_not_pressed: "\<not> admin_delete w \<Longrightarrow> snd (admin_delete_entry w fs) = fs"
  by (simp add: admin_delete_entry_def)

lemma admin_reset_not_confirmed:
  "\<not> (admin_reset w \<and> btn_confirm_reset w) \<Longrightarrow> snd (admin_reset_all w fs) = fs"
  by (simp add: admin_reset_all_def)

lemma admin_page_frame:
  assumes "admin_delete w \<longrightarrow> delete_from w = ''Inventory''"
    and "\<not> (admin_reset w \<and> btn_confirm_reset w)"
  shows "snd (admin_page w fs) waste_log_file = fs waste_log_file"
proof -
  have del: "snd (admin_delete_entry w fs) waste_log_file = fs waste_log_file"
    using assms(1) admin_delete_inventory_frame[of w fs] admin_delete_not_pressed[of w fs]
    by (cases "admin_delete w") simp_all
  show ?thesis
    using del
    by (simp add: admin_page_def snd_and_then admin_download_csv_snd admin_view_data_snd
        admin_reset_not_confirmed[OF assms(2)] split: sum.splits)
qed

lemma init_keeps_waste:
  "fs waste_log_file = Some f \<Longrightarrow> init_data_files fs waste_log_file = Some f"
  using paths_distinct
  by (simp add: init_data_files_def Let_def path_exists_def to_csv_def)

text \<open>
  Claim C9.  Deleting from the Inventory in the Admin panel leaves the Waste Log
  file exactly as it was, whatever its content and whether or not its records
  name the item deleted: for the delete panel alone, for the whole Admin page
  (when the reset is not confirmed in the same run), and for the whole run of the
  script on a store whose Waste Log file exists.
\<close>

theorem inventory_delete_keeps_waste_log:
  "(admin_delete w \<and> delete_from w = ''Inventory'' \<longrightarrow>
      snd (admin_delete_entry w fs) waste_log_file = fs waste_log_file)
   \<and> ((admin_delete w \<longrightarrow> delete_from w = ''Inventory'') \<and>
       \<not> (admin_reset w \<and> btn_confirm_reset w) \<longrightarrow>
      snd (admin_page w fs) waste_log_file = fs waste_log_file)
   \<and> (fs waste_log_file = Some f \<and> navigate session w = Admin \<and>
       (admin_delete w \<longrightarrow> delete_from w = ''Inventory'') \<and>
       \<not> (admin_reset w \<and> btn_confirm_reset w) \<longrightarrow>
      snd (fst (script session w today fs)) waste_log_file = Some f)"
proof (intro conjI impI)
  assume "admin_delete w \<and> delete_from w = ''Inventory''"
  then show "snd (admin_delete_entry w fs) waste_log_file = fs waste_log_file"
    by (simp add: admin_delete_inventory_frame)
next
  assume "(admin_delete w \<longrightarrow> delete_from w = ''Inventory'') \<and>
       \<not> (admin_reset w \<and> btn_confirm_reset w)"
  then show "snd (admin_page w fs) waste_log_file = fs waste_log_file"
    using admin_page_frame[of w fs] by blast
next
  assume h: "fs waste_log_file = Some f \<and> navigate session w = Admin \<and>
       (admin_delete w \<longrightarrow> delete_from w = ''Inventory'') \<and>
       \<not> (admin_reset w \<and> btn_confirm_reset w)"
  then have "snd (admin_page w (init_data_files fs)) waste_log_file
               = init_data_files fs waste_log_file"
    using admin_page_frame[of w "init_data_files fs"] by blast
  with h show "snd (fst (script session w today fs)) waste_log_file = Some f"
    by (simp add: script_def run_page_def Let_def init_keeps_waste)
qed

theorem inventory_delete_keeps_waste_log_witness:
  "admin_delete (no_input\<lparr>admin := True, admin_delete := True, sel_index := 0, btn_del_inv := True\<rparr>)
   \<and> delete_from (no_input\<lparr>admin := True, admin_delete := True, sel_index := 0, btn_del_inv := True\<rparr>)
       = ''Inventory''
   \<and> navigate None (no_input\<lparr>admin := True, admin_delete := True, sel_index := 0, btn_del_inv := True\<rparr>)
       = Admin
   \<and> example_fs waste_log_file = Some example_waste
   \<and> load_inventory
        (snd (admin_delete_entry
           (no_input\<lparr>admin := True, admin_delete := True, sel_index := 0, btn_del_inv := True\<rparr>)
           example_fs))
       = Inr (without_row 0 example_inventory_df)
   \<and> snd (admin_delete_entry
        (no_input\<lparr>admin := True, admin_delete := True, sel_index := 0, btn_del_inv := True\<rparr>)
        example_fs) waste_log_file = Some example_waste
   \<and> snd (fst (script None
        (no_input\<lparr>admin := True, admin_delete := True, sel_index := 0, btn_del_inv := True\<rparr>)
        example_today example_fs)) waste_log_file = Some example_waste"
proof -
  let ?w = "no_input\<lparr>admin := True, admin_delete := True, sel_index := 0, btn_del_inv := True\<rparr>"
  have w: "admin_delete ?w" "delete_from ?w = ''Inventory''" "sel_index ?w = 0" "btn_del_inv ?w"
    "\<not> (admin_reset ?w \<and> btn_confirm_reset ?w)"
    by (simp_all add: no_input_def)
  have nav: "navigate None ?w = Admin"
    by (simp add: navigate_def)
  have waste: "example_fs waste_log_file = Some example_waste"
    by (simp add: example_fs_def)
  have "0 < len example_inventory_df"
    by (simp add: len_def example_inventory_df_def)
  note del = admin_delete_inventory_confirmed(2)[OF load_inventory_example this w(1,2,3,4)]
  show ?thesis
    using inventory_delete_keeps_waste_log [of ?w example_fs example_waste None example_today]
      w nav waste del
    by simp
qed

section \<open>The schema of the two files\<close>

lemma has_columns_load:
  "has_columns fs path cols \<Longrightarrow> read_csv path fs = Inr df \<Longrightarrow> columns df = cols"
  by (auto simp: has_columns_def read_csv_def split: option.splits if_splits)

lemma has_columns_to_csv_same:
  "columns d = cols \<Longrightarrow> has_columns (to_csv d path fs) path cols"
  by (simp add: has_columns_def to_csv_def)

lemma has_columns_to_csv_other:
  "path' \<noteq> path \<Longrightarrow> has_columns (to_csv d path fs) path' cols = has_columns fs path' cols"
  by (simp add: has_columns_def to_csv_def)

lemma schema_ok_save_inventory:
  "schema_ok fs \<Longrightarrow> columns d = inventory_columns \<Longrightarrow> schema_ok (save_inventory d fs)"
  using paths_distinct
  by (simp add: schema_ok_def save_inventory_def has_columns_to_csv_same
      has_columns_to_csv_other[of waste_log_file inventory_file])

lemma schema_ok_save_waste_log:
  "schema_ok fs \<Longrightarrow> columns d = waste_columns \<Longrightarrow> schema_ok (save_waste_log d fs)"
  using paths_distinct
  by (simp add: schema_ok_def save_waste_log_def has_columns_to_csv_same
      has_columns_to_csv_other[of inventory_file waste_log_file])

lemma schema_ok_load_inventory:
  assumes "schema_ok fs" and "load_inventory fs = Inr df"
  shows "columns df = inventory_columns"
  using assms has_columns_load[of fs inventory_file inventory_columns df]
  by (simp add: schema_ok_def load_inventory_def)

lemma schema_ok_load_waste_log:
  assumes "schema_ok fs" and "load_waste_log fs = Inr df"
  shows "columns df = waste_columns"
  using assms has_columns_load[of fs waste_log_file waste_columns df]
  by (simp add: schema_ok_def load_waste_log_def)

lemma columns_concat_same:
  "columns a = cols \<Longrightarrow> columns (concat_ignore_index a (DataFrame data cols)) = cols"
  by (simp add: concat_ignore_index_def Let_def DataFrame_def union_columns_same)

lemma columns_df_drop: "df_drop df i = Inr d \<Longrightarrow> columns d = columns df"
  by (auto simp: df_drop_def split: if_splits)

lemma and_then_preserves:
  assumes "P (snd r)" and "\<And>fs1. P fs1 \<Longrightarrow> P (snd (f fs1))"
  shows "P (snd (and_then r f))"
  using assms by (cases "fst r") (simp_all add: snd_and_then)

lemma home_page_snd: "snd (home_page fs) = fs"
  by (simp add: home_page_def Let_def split: sum.splits)

lemma inventory_page_snd: "snd (inventory_page fs) = fs"
  by (simp add: inventory_page_def split: sum.splits)

lemma analytics_page_snd: "snd (analytics_page ns fs) = fs"
  by (simp add: analytics_page_def split: sum.splits pyval.splits)

lemma add_page_schema:
  assumes "schema_ok fs"
  shows "schema_ok (snd (add_page w today fs))"
proof (cases "load_inventory fs")
  case (Inl e)
  with assms show ?thesis by (simp add: add_page_def Let_def)
next
  case (Inr df)
  from schema_ok_load_inventory[OF assms Inr]
  have "columns (concat_ignore_index df (DataFrame data inventory_columns)) = inventory_columns"
    for data by (rule columns_concat_same)
  with assms Inr show ?thesis
    by (simp add: add_page_def Let_def schema_ok_save_inventory)
qed

lemma log_waste_form_schema:
  assumes "schema_ok fs"
  shows "schema_ok (snd (log_waste_form w today fs))"
proof (cases "load_waste_log fs")
  case (Inl e)
  with assms show ?thesis by (simp add: log_waste_form_def Let_def split: sum.splits)
next
  case (Inr df)
  from schema_ok_load_waste_log[OF assms Inr]
  have "columns (concat_ignore_index df (DataFrame data waste_columns)) = waste_columns"
    for data by (rule columns_concat_same)
  with assms Inr show ?thesis
    by (simp add: log_waste_form_def Let_def schema_ok_save_waste_log split: sum.splits)
qed

lemma delete_waste_entry_schema:
  assumes "schema_ok fs"
  shows "schema_ok (snd (delete_waste_entry w fs))"
proof (cases "load_waste_log fs")
  case (Inl e)
  with assms show ?thesis by (simp add: delete_waste_entry_def)
next
  case (Inr df)
  note cols = schema_ok_load_waste_log[OF assms Inr]
  show ?thesis
  proof (cases "df_drop df (entry_to_delete w)")
    case (Inl e)
    with assms Inr show ?thesis
      by (simp add: delete_waste_entry_def Let_def split: sum.splits)
  next
    case d: (Inr d)
    from columns_df_drop[OF d] cols have "columns d = waste_columns" by simp
    with assms Inr d show ?thesis
      by (simp add: delete_waste_entry_def Let_def schema_ok_save_waste_log split: sum.splits)
  qed
qed

lemma waste_page_schema: "schema_ok fs \<Longrightarrow> schema_ok (snd (waste_page w today fs))"
  unfolding waste_page_def
  by (rule and_then_preserves) (simp_all add: log_waste_form_schema delete_waste_entry_schema)

lemma admin_delete_inventory_schema:
  assumes "schema_ok fs" and "delete_from w = ''Inventory''"
  shows "schema_ok (snd (admin_delete_entry w fs))"
proof (cases "load_inventory fs")
  case (Inl e)
  with assms show ?thesis by (simp add: admin_delete_entry_def)
next
  case (Inr df)
  note cols = schema_ok_load_inventory[OF assms(1) Inr]
  show ?thesis
  proof (cases "df_drop df (sel_index w)")
    case (Inl e)
    with assms Inr show ?thesis
      by (simp add: admin_delete_entry_def Let_def split: sum.splits)
  next
    case d: (Inr d)
    from columns_df_drop[OF d] cols have "columns d = inventory_columns" by simp
    with assms Inr d show ?thesis
      by (simp add: admin_delete_entry_def Let_def schema_ok_save_inventory split: sum.splits)
  qed
qed

lemma admin_delete_waste_schema:
  assumes "schema_ok fs" and "delete_from w \<noteq> ''Inventory''"
  shows "schema_ok (snd (admin_delete_entry w fs))"
proof (cases "load_waste_log fs")
  case (Inl e)
  with assms show ?thesis by (simp add: admin_delete_entry_def)
next
  case (Inr df)
  note cols = schema_ok_load_waste_log[OF assms(1) Inr]
  show ?thesis
  proof (cases "df_drop df (sel_index w)")
    case (Inl e)
    with assms Inr show ?thesis
      by (simp add: admin_delete_entry_def Let_def split: sum.splits)
  next
    case d: (Inr d)
    from columns_df_drop[OF d] cols have "columns d = waste_columns" by simp
    with assms Inr d show ?thesis
      by (simp add: admin_delete_entry_def Let_def schema_ok_save_waste_log split: sum.splits)
  qed
qed

lemma admin_delete_entry_schema: "schema_ok fs \<Longrightarrow> schema_ok (snd (admin_delete_entry w fs))"
  using admin_delete_inventory_schema[of fs w] admin_delete_waste_schema[of fs w]
  by (cases "delete_from w = ''Inventory''") simp_all

lemma reset_schema:
  "schema_ok (save_waste_log (DataFrame_columns waste_columns)
     (save_inventory (DataFrame_columns inventory_columns) fs))"
  using paths_distinct
  by (simp add: schema_ok_def save_inventory_def save_waste_log_def has_columns_def to_csv_def
      DataFrame_columns_def)

lemma admin_reset_all_schema: "schema_ok fs \<Longrightarrow> schema_ok (snd (admin_reset_all w fs))"
  by (simp add: admin_reset_all_def reset_schema)

lemma admin_page_schema:
  assumes "schema_ok fs"
  shows "schema_ok (snd (admin_page w fs))"
  unfolding admin_page_def
proof (rule and_then_preserves, rule and_then_preserves, rule and_then_preserves)
  show "schema_ok (snd (admin_view_data w fs))"
    using assms by (simp add: admin_view_data_snd)
  show "schema_ok (snd (admin_delete_entry w fs1))" if "schema_ok fs1" for fs1
    using that by (rule admin_delete_entry_schema)
  show "schema_ok (snd (admin_reset_all w fs1))" if "schema_ok fs1" for fs1
    using that by (rule admin_reset_all_schema)
  show "schema_ok (snd (admin_download_csv w fs1))" if "schema_ok fs1" for fs1
    using that by (simp add: admin_download_csv_snd)
qed

lemma run_page_schema:
  assumes "schema_ok fs"
  shows "schema_ok (snd (run_page p w today fs))"
proof (cases p)
  case Home
  with assms show ?thesis by (simp add: run_page_def home_page_snd)
next
  case Inventory
  with assms show ?thesis by (simp add: run_page_def inventory_page_snd)
next
  case Add
  with assms show ?thesis by (simp add: run_page_def add_page_schema)
next
  case Waste
  with assms show ?thesis by (simp add: run_page_def waste_page_schema)
next
  case Analytics
  with assms show ?thesis by (simp add: run_page_def analytics_page_snd)
next
  case Admin
  with assms show ?thesis by (simp add: run_page_def admin_page_schema)
qed

lemma init_data_files_schema: "absent_or_schema fs \<Longrightarrow> schema_ok (init_data_files fs)"
  using paths_distinct
  by (auto simp: absent_or_schema_def schema_ok_def init_data_files_def Let_def path_exists_def
      has_columns_def to_csv_def DataFrame_columns_def split: option.splits)

text \<open>
  Claim C10.  Every operation that writes a table keeps the schema.  Initialisation
  of a store whose files are absent or have their schema leaves both files with
  exactly the columns \<^verbatim>\<open>Item, Quantity, Date Received, Expiry Date\<close> and
  \<^verbatim>\<open>Item, Quantity Wasted, Reason, Waste Date\<close>, in that order; every page, with any
  widget input (add, log waste, each delete, reset) and whether or not the run
  ends in an exception, keeps them so; hence so does every run of the script; and
  the confirmed reset establishes them from any store.
\<close>

theorem schema_preserved:
  "(absent_or_schema fs \<longrightarrow> schema_ok (init_data_files fs))
   \<and> (schema_ok fs \<longrightarrow> schema_ok (snd (run_page p w today fs)))
   \<and> (absent_or_schema fs \<longrightarrow> schema_ok (snd (fst (script session w today fs))))
   \<and> (admin_reset w \<and> btn_confirm_reset w \<longrightarrow> schema_ok (snd (admin_reset_all w fs)))"
proof (intro conjI impI)
  assume "absent_or_schema fs"
  then show "schema_ok (init_data_files fs)" by (rule init_data_files_schema)
next
  assume "schema_ok fs"
  then show "schema_ok (snd (run_page p w today fs))" by (rule run_page_schema)
next
  assume "absent_or_schema fs"
  then have "schema_ok (init_data_files fs)" by (rule init_data_files_schema)
  then show "schema_ok (snd (fst (script session w today fs)))"
    by (simp add: script_def Let_def run_page_schema)
next
  assume "admin_reset w \<and> btn_confirm_reset w"
  then show "schema_ok (snd (admin_reset_all w fs))"
    by (simp add: admin_reset_all_def reset_schema)
qed

lemma schema_ok_example: "schema_ok example_fs"
  using paths_distinct
  by (simp add: schema_ok_def has_columns_def example_fs_def example_inventory_def
      example_waste_def)

lemma absent_or_schema_example: "absent_or_schema [inventory_file \<mapsto> example_inventory]"
  using paths_distinct
  by (simp add: absent_or_schema_def has_columns_def example_inventory_def)

theorem schema_preserved_witness:
  "absent_or_schema [inventory_file \<mapsto> example_inventory]
   \<and> schema_ok (init_data_files [inventory_file \<mapsto> example_inventory])
   \<and> schema_ok example_fs
   \<and> schema_ok (snd (run_page Add (no_input\<lparr>item_name := ''Oats'', btn_add_item := True\<rparr>)
        example_today example_fs))
   \<and> schema_ok (snd (run_page Admin
        (no_input\<lparr>admin_delete := True, delete_from := ''Waste Log'', sel_index := 1,
           btn_del_admin_waste := True\<rparr>) example_today example_fs))
   \<and> schema_ok (snd (fst (script (Some Waste)
        (no_input\<lparr>sel_item := Str ''Rice'', btn_log_waste := True\<rparr>) example_today
        [inventory_file \<mapsto> example_inventory])))
   \<and> schema_ok (snd (admin_reset_all (no_input\<lparr>admin_reset := True, btn_confirm_reset := True\<rparr>)
        example_fs))"
  using schema_preserved [of "[inventory_file \<mapsto> example_inventory]" Add
      "no_input\<lparr>sel_item := Str ''Rice'', btn_log_waste := True\<rparr>" example_today "Some Waste"]
    schema_preserved [of example_fs Add "no_input\<lparr>item_name := ''Oats'', btn_add_item := True\<rparr>"
      example_today None]
    schema_preserved [of example_fs Admin
      "no_input\<lparr>admin_delete := True, delete_from := ''Waste Log'', sel_index := 1,
           btn_del_admin_waste := True\<rparr>" example_today None]
    schema_preserved [of example_fs Home
      "no_input\<lparr>admin_reset := True, btn_confirm_reset := True\<rparr>" example_today None]
    schema_ok_example absent_or_schema_example
  by simp

section \<open>Waste Analytics\<close>

lemma waste_df_unbound: "lookup_name module_globals ''waste_df'' = Inl (NameError ''waste_df'')"
  by (simp add: lookup_name_def module_globals_def)

text \<open>
  Claim C1.  The claim asks that the bar chart be computed from the Waste Log
  frame that the Analytics branch has just loaded.  The branch binds that frame to
  \<^verbatim>\<open>df\<close> but aggregates \<^verbatim>\<open>waste_df\<close>, a name only the Home branch binds: whenever the
  Waste Log is not empty, the Analytics page ends in \<^verbatim>\<open>NameError\<close> and no chart is
  computed, on the page and in a run of the whole script.
\<close>

theorem analytics_reads_unbound_name:
  "(load_waste_log fs = Inr df \<and> \<not> df_empty df \<longrightarrow>
      analytics_page module_globals fs = (Inl (NameError ''waste_df''), fs))
   \<and> (navigate session w = Analytics \<and> load_waste_log (init_data_files fs) = Inr df \<and>
       \<not> df_empty df \<longrightarrow>
      fst (script session w today fs) = (Inl (NameError ''waste_df''), init_data_files fs))"
proof (intro conjI impI)
  assume "load_waste_log fs = Inr df \<and> \<not> df_empty df"
  then show "analytics_page module_globals fs = (Inl (NameError ''waste_df''), fs)"
    by (simp add: analytics_page_def waste_df_unbound)
next
  assume "navigate session w = Analytics \<and> load_waste_log (init_data_files fs) = Inr df \<and>
       \<not> df_empty df"
  then show "fst (script session w today fs) = (Inl (NameError ''waste_df''), init_data_files fs)"
    by (simp add: script_def Let_def run_page_def analytics_page_def waste_df_unbound)
qed

lemma init_example_fs: "init_data_files example_fs = example_fs"
  using paths_distinct
  by (simp add: init_data_files_def Let_def path_exists_def example_fs_def)

lemma example_waste_df_not_empty: "\<not> df_empty example_waste_df"
  by (simp add: df_empty_def example_waste_df_def waste_columns_def)

lemma groupby_example:
  "groupby_sum example_waste_df ''Item'' ''Quantity Wasted'' = Inr [(Str ''Beans'', 5), (Str ''Rice'', 7)]"
  by code_simp

theorem analytics_reads_unbound_name_witness:
  "load_waste_log example_fs = Inr example_waste_df
   \<and> \<not> df_empty example_waste_df
   \<and> navigate (Some Home) (no_input\<lparr>analytics := True\<rparr>) = Analytics
   \<and> groupby_sum example_waste_df ''Item'' ''Quantity Wasted''
       = Inr [(Str ''Beans'', 5), (Str ''Rice'', 7)]
   \<and> analytics_page module_globals example_fs = (Inl (NameError ''waste_df''), example_fs)
   \<and> fst (script (Some Home) (no_input\<lparr>analytics := True\<rparr>) example_today example_fs)
       = (Inl (NameError ''waste_df''), example_fs)"
proof -
  have nav: "navigate (Some Home) (no_input\<lparr>analytics := True\<rparr>) = Analytics"
    by (simp add: navigate_def no_input_def)
  show ?thesis
    using analytics_reads_unbound_name
        [of example_fs example_waste_df "Some Home" "no_input\<lparr>analytics := True\<rparr>" example_today]
      load_waste_log_example example_waste_df_not_empty nav groupby_example
    by (simp add: init_example_fs)
qed

section \<open>One click in a run\<close>

lemma two_true_in_list:
  assumes "i < length xs" and "j < length xs" and "i \<noteq> j" and "xs ! i" and "xs ! j"
  shows "2 \<le> length (filter (\<lambda>b. b) xs)"
proof -
  have "{i, j} \<subseteq> {k. k < length xs \<and> xs ! k}"
    using assms by simp
  moreover have "finite {k. k < length xs \<and> xs ! k}" by simp
  ultimately have "card {i, j} \<le> card {k. k < length xs \<and> xs ! k}"
    by (rule card_mono[rotated])
  moreover have "card {i, j} = 2" using assms(3) by simp
  ultimately show ?thesis by (simp add: length_filter_conv_card)
qed

lemma one_click_excludes:
  assumes "one_click w" and "i < 16" and "j < 16" and "i \<noteq> j" and "pressed w ! i"
  shows "\<not> pressed w ! j"
proof
  assume "pressed w ! j"
  moreover have "length (pressed w) = 16" by (simp add: pressed_def)
  ultimately have "2 \<le> length (filter (\<lambda>b. b) (pressed w))"
    using assms(2-5) by (intro two_true_in_list[of i _ j]) simp_all
  with assms(1) show False by (simp add: one_click_def)
qed

lemma one_click_admin_delete:
  assumes "one_click w" and "admin_delete w"
  shows "\<not> btn_del_inv w" and "\<not> btn_del_admin_waste w"
  using one_click_excludes[OF assms(1), of 10 11] one_click_excludes[OF assms(1), of 10 12] assms(2)
  by (simp_all add: pressed_def)

lemma one_click_admin_reset:
  assumes "one_click w" and "admin_reset w"
  shows "\<not> btn_confirm_reset w"
  using one_click_excludes[OF assms(1), of 13 14] assms(2)
  by (simp add: pressed_def)

lemma one_click_nested:
  assumes "one_click w" and "btn_del_inv w \<or> btn_del_admin_waste w \<or> btn_confirm_reset w"
  shows "\<not> view_raw w" and "\<not> admin_delete w" and "\<not> admin_reset w" and "\<not> admin_download w"
proof -
  from assms(2) consider "btn_del_inv w" | "btn_del_admin_waste w" | "btn_confirm_reset w" by blast
  then have "\<not> view_raw w \<and> \<not> admin_delete w \<and> \<not> admin_reset w \<and> \<not> admin_download w"
  proof cases
    case 1
    with one_click_excludes[OF assms(1), of 11 9] one_click_excludes[OF assms(1), of 11 10]
      one_click_excludes[OF assms(1), of 11 13] one_click_excludes[OF assms(1), of 11 15]
    show ?thesis by (simp add: pressed_def)
  next
    case 2
    with one_click_excludes[OF assms(1), of 12 9] one_click_excludes[OF assms(1), of 12 10]
      one_click_excludes[OF assms(1), of 12 13] one_click_excludes[OF assms(1), of 12 15]
    show ?thesis by (simp add: pressed_def)
  next
    case 3
    with one_click_excludes[OF assms(1), of 14 9] one_click_excludes[OF assms(1), of 14 10]
      one_click_excludes[OF assms(1), of 14 13] one_click_excludes[OF assms(1), of 14 15]
    show ?thesis by (simp add: pressed_def)
  qed
  then show "\<not> view_raw w" and "\<not> admin_delete w" and "\<not> admin_reset w" and "\<not> admin_download w"
    by simp_all
qed

section \<open>The nested buttons of the Admin panel\<close>

lemma admin_delete_entry_no_nested:
  "\<not> btn_del_inv w \<Longrightarrow> \<not> btn_del_admin_waste w \<Longrightarrow> snd (admin_delete_entry w fs) = fs"
  by (simp add: admin_delete_entry_def Let_def split: sum.splits)

lemma one_click_admin_delete_entry:
  assumes "one_click w"
  shows "snd (admin_delete_entry w fs) = fs"
proof (cases "admin_delete w")
  case True
  from one_click_admin_delete[OF assms True] show ?thesis
    by (rule admin_delete_entry_no_nested)
next
  case False
  then show ?thesis by (rule admin_delete_not_pressed)
qed

lemma one_click_admin_reset_all:
  assumes "one_click w"
  shows "snd (admin_reset_all w fs) = fs"
  using one_click_admin_reset[OF assms] by (intro admin_reset_not_confirmed) blast

lemma one_click_admin_page:
  assumes "one_click w"
  shows "snd (admin_page w fs) = fs"
  unfolding admin_page_def
proof (rule and_then_preserves, rule and_then_preserves, rule and_then_preserves)
  show "snd (admin_view_data w fs) = fs" by (rule admin_view_data_snd)
  show "snd (admin_delete_entry w fs1) = fs" if "fs1 = fs" for fs1
    using that one_click_admin_delete_entry[OF assms] by simp
  show "snd (admin_reset_all w fs1) = fs" if "fs1 = fs" for fs1
    using that one_click_admin_reset_all[OF assms] by simp
  show "snd (admin_download_csv w fs1) = fs" if "fs1 = fs" for fs1
    using that by (simp add: admin_download_csv_snd)
qed

lemma nested_click_admin_page:
  assumes "one_click w" and "btn_del_inv w \<or> btn_del_admin_waste w \<or> btn_confirm_reset w"
  shows "admin_page w fs = (Inr [], fs)"
  using one_click_nested[OF assms]
  by (simp add: admin_page_def admin_view_data_def admin_delete_entry_def admin_reset_all_def
      admin_download_csv_def and_then_Nil)

text \<open>
  Claim C2.  The claim asks that a confirmed delete by position removes the row,
  for the Inventory as for the Waste Log.  The Inventory can only be deleted from
  in the Admin panel, where the button that confirms (\<^verbatim>\<open>btn_del_inv\<close>, and likewise
  \<^verbatim>\<open>btn_del_admin_waste\<close>) is drawn inside the branch of the button that opens the
  panel (\<^verbatim>\<open>admin_delete\<close>).  In a run with at most one button True the delete panel
  never writes, and the run that the click on the confirming button causes draws
  nothing and leaves every file as it was: no row is removed.
\<close>

theorem admin_delete_never_runs:
  "(one_click w \<longrightarrow> snd (admin_delete_entry w fs) = fs \<and> snd (admin_page w fs) = fs)
   \<and> (one_click w \<and> (btn_del_inv w \<or> btn_del_admin_waste w) \<longrightarrow>
        admin_page w fs = (Inr [], fs))
   \<and> (one_click w \<and> (btn_del_inv w \<or> btn_del_admin_waste w) \<and> navigate session w = Admin \<longrightarrow>
        fst (script session w today fs) = (Inr [], init_data_files fs))"
proof (intro conjI impI)
  assume "one_click w"
  then show "snd (admin_delete_entry w fs) = fs" by (rule one_click_admin_delete_entry)
next
  assume "one_click w"
  then show "snd (admin_page w fs) = fs" by (rule one_click_admin_page)
next
  assume "one_click w \<and> (btn_del_inv w \<or> btn_del_admin_waste w)"
  then show "admin_page w fs = (Inr [], fs)"
    using nested_click_admin_page[of w fs] by blast
next
  assume h: "one_click w \<and> (btn_del_inv w \<or> btn_del_admin_waste w) \<and> navigate session w = Admin"
  then have "admin_page w (init_data_files fs) = (Inr [], init_data_files fs)"
    using nested_click_admin_page[of w "init_data_files fs"] by blast
  with h show "fst (script session w today fs) = (Inr [], init_data_files fs)"
    by (simp add: script_def Let_def run_page_def)
qed

lemma one_click_single:
  "one_click (no_input\<lparr>btn_del_inv := True\<rparr>)"
  "one_click (no_input\<lparr>admin_delete := True\<rparr>)"
  "one_click (no_input\<lparr>btn_confirm_reset := True\<rparr>)"
  "one_click (no_input\<lparr>admin_reset := True\<rparr>)"
  by (simp_all add: one_click_def pressed_def no_input_def)

lemma len_examples: "len example_inventory_df = 2" "len example_waste_df = 3"
  by (simp_all add: len_def example_inventory_df_def example_waste_df_def)

theorem admin_delete_never_runs_witness:
  "one_click (no_input\<lparr>admin_delete := True\<rparr>)
   \<and> admin_delete_entry (no_input\<lparr>admin_delete := True\<rparr>) example_fs
       = (Inr [Table (row_shown example_inventory_df 0)], example_fs)
   \<and> one_click (no_input\<lparr>btn_del_inv := True\<rparr>)
   \<and> btn_del_inv (no_input\<lparr>btn_del_inv := True\<rparr>)
   \<and> navigate (Some Admin) (no_input\<lparr>btn_del_inv := True\<rparr>) = Admin
   \<and> admin_page (no_input\<lparr>btn_del_inv := True\<rparr>) example_fs = (Inr [], example_fs)
   \<and> fst (script (Some Admin) (no_input\<lparr>btn_del_inv := True\<rparr>) example_today example_fs)
       = (Inr [], example_fs)
   \<and> load_inventory example_fs = Inr example_inventory_df
   \<and> len example_inventory_df = 2"
proof -
  have nav: "navigate (Some Admin) (no_input\<lparr>btn_del_inv := True\<rparr>) = Admin"
    by (simp add: navigate_def no_input_def)
  have rd: "read_csv inventory_file example_fs = Inr example_inventory_df"
    using load_inventory_example by (simp add: load_inventory_def)
  have "0 < len example_inventory_df" by (simp add: len_examples)
  note loc = loc_drop_save_load(1)[OF rd this]
  have ne: "\<not> df_empty example_inventory_df"
    by (simp add: df_empty_def example_inventory_df_def inventory_columns_def)
  have first: "admin_delete_entry (no_input\<lparr>admin_delete := True\<rparr>) example_fs
       = (Inr [Table (row_shown example_inventory_df 0)], example_fs)"
    using load_inventory_example loc ne
    by (simp add: admin_delete_entry_def Let_def no_input_def)
  show ?thesis
    using admin_delete_never_runs [of "no_input\<lparr>btn_del_inv := True\<rparr>" example_fs "Some Admin"
        example_today]
      one_click_single nav first load_inventory_example len_examples
    by (simp add: init_example_fs)
qed

text \<open>
  Claim C5.  The claim asks that both tables are empty once the reset is confirmed.
  \<^verbatim>\<open>Confirm Reset\<close> is drawn inside the branch of \<^verbatim>\<open>Reset All\<close>.  In a run with at most
  one button True the reset never writes: the click on \<^verbatim>\<open>Reset All\<close> shows the
  warning, and the run that the click on \<^verbatim>\<open>Confirm Reset\<close> causes draws nothing and
  leaves both files with all their rows.
\<close>

theorem confirm_reset_never_runs:
  "(one_click w \<longrightarrow> snd (admin_reset_all w fs) = fs)
   \<and> (one_click w \<and> admin_reset w \<longrightarrow>
        admin_reset_all w fs = (Inr [Warning ''Deletes ALL data.''], fs))
   \<and> (one_click w \<and> btn_confirm_reset w \<longrightarrow> admin_page w fs = (Inr [], fs))
   \<and> (one_click w \<and> btn_confirm_reset w \<and> navigate session w = Admin \<longrightarrow>
        fst (script session w today fs) = (Inr [], init_data_files fs))"
proof (intro conjI impI)
  assume "one_click w"
  then show "snd (admin_reset_all w fs) = fs" by (rule one_click_admin_reset_all)
next
  assume h: "one_click w \<and> admin_reset w"
  then have "\<not> btn_confirm_reset w" using one_click_admin_reset[of w] by blast
  with h show "admin_reset_all w fs = (Inr [Warning ''Deletes ALL data.''], fs)"
    by (simp add: admin_reset_all_def)
next
  assume "one_click w \<and> btn_confirm_reset w"
  then show "admin_page w fs = (Inr [], fs)"
    using nested_click_admin_page[of w fs] by blast
next
  assume h: "one_click w \<and> btn_confirm_reset w \<and> navigate session w = Admin"
  then have "admin_page w (init_data_files fs) = (Inr [], init_data_files fs)"
    using nested_click_admin_page[of w "init_data_files fs"] by blast
  with h show "fst (script session w today fs) = (Inr [], init_data_files fs)"
    by (simp add: script_def Let_def run_page_def)
qed

theorem confirm_reset_never_runs_witness:
  "one_click (no_input\<lparr>admin_reset := True\<rparr>)
   \<and> admin_reset (no_input\<lparr>admin_reset := True\<rparr>)
   \<and> admin_reset_all (no_input\<lparr>admin_reset := True\<rparr>) example_fs
       = (Inr [Warning ''Deletes ALL data.''], example_fs)
   \<and> one_click (no_input\<lparr>btn_confirm_reset := True\<rparr>)
   \<and> btn_confirm_reset (no_input\<lparr>btn_confirm_reset := True\<rparr>)
   \<and> navigate (Some Admin) (no_input\<lparr>btn_confirm_reset := True\<rparr>) = Admin
   \<and> fst (script (Some Admin) (no_input\<lparr>btn_confirm_reset := True\<rparr>) example_today example_fs)
       = (Inr [], example_fs)
   \<and> load_inventory example_fs = Inr example_inventory_df
   \<and> len example_inventory_df = 2
   \<and> load_waste_log example_fs = Inr example_waste_df
   \<and> len example_waste_df = 3"
proof -
  have nav: "navigate (Some Admin) (no_input\<lparr>btn_confirm_reset := True\<rparr>) = Admin"
    by (simp add: navigate_def no_input_def)
  show ?thesis
    using confirm_reset_never_runs [of "no_input\<lparr>admin_reset := True\<rparr>" example_fs None example_today]
      confirm_reset_never_runs [of "no_input\<lparr>btn_confirm_reset := True\<rparr>" example_fs "Some Admin"
        example_today]
      one_click_single nav load_inventory_example load_waste_log_example len_examples
    by (simp add: init_example_fs)
qed

section \<open>The most wasted item on the Home page\<close>

lemma groupby_sum_all_missing:
  assumes "''Item'' \<in> set (columns df)" and "''Quantity Wasted'' \<in> set (columns df)"
    and "\<forall>r \<in> set (rows_of df). cell_at (columns df) r ''Item'' = NaN"
  shows "groupby_sum df ''Item'' ''Quantity Wasted'' = Inr []"
proof -
  have "filter (\<lambda>p. fst p \<noteq> NaN)
          (map (\<lambda>r. (cell_at (columns df) r ''Item'', cell_at (columns df) r ''Quantity Wasted''))
             (rows_of df)) = []"
    using assms(3) by (simp add: filter_empty_conv)
  then show ?thesis
    using assms(1,2) by (simp add: groupby_sum_def Let_def sort_keys_def)
qed

text \<open>
  Claim C7.  The claim asks for a most wasted item whenever the Waste Log is not
  empty.  When every row of a non-empty Waste Log has a missing \<^verbatim>\<open>Item\<close> (the
  empty field, which is what an Item Name left empty is saved as), the grouping
  has no key left, \<^verbatim>\<open>idxmax\<close> is applied to an empty Series and the Home page ends
  in \<^verbatim>\<open>ValueError\<close>.
\<close>

theorem home_page_all_items_missing:
  "load_inventory fs = Inr inv_df \<and> load_waste_log fs = Inr waste_df \<and> \<not> df_empty waste_df \<and>
   ''Item'' \<in> set (columns waste_df) \<and> ''Quantity Wasted'' \<in> set (columns waste_df) \<and>
   (\<forall>r \<in> set (rows_of waste_df). cell_at (columns waste_df) r ''Item'' = NaN) \<longrightarrow>
     home_page fs = (Inl ValueError, fs)"
proof
  assume h: "load_inventory fs = Inr inv_df \<and> load_waste_log fs = Inr waste_df \<and> \<not> df_empty waste_df \<and>
   ''Item'' \<in> set (columns waste_df) \<and> ''Quantity Wasted'' \<in> set (columns waste_df) \<and>
   (\<forall>r \<in> set (rows_of waste_df). cell_at (columns waste_df) r ''Item'' = NaN)"
  then have "groupby_sum waste_df ''Item'' ''Quantity Wasted'' = Inr []"
    by (simp add: groupby_sum_all_missing)
  with h show "home_page fs = (Inl ValueError, fs)"
    by (simp add: home_page_def Let_def sort_values_desc_def)
qed

lemma load_unnamed_item_inventory:
  "load_inventory unnamed_item_fs
     = Inr \<lparr>columns = inventory_columns,
            entries = [(0, [NaN, Num 1, Str ''2024-02-01'', Str ''2024-06-01''])]\<rparr>"
  by code_simp

lemma load_unnamed_item_waste:
  "load_waste_log unnamed_item_fs
     = Inr \<lparr>columns = waste_columns,
            entries = [(0, [NaN, Num 5, NaN, Str ''2024-02-01''])]\<rparr>"
  by code_simp

theorem home_page_all_items_missing_witness:
  "load_inventory unnamed_item_fs
     = Inr \<lparr>columns = inventory_columns,
            entries = [(0, [NaN, Num 1, Str ''2024-02-01'', Str ''2024-06-01''])]\<rparr>
   \<and> load_waste_log unnamed_item_fs
     = Inr \<lparr>columns = waste_columns,
            entries = [(0, [NaN, Num 5, NaN, Str ''2024-02-01''])]\<rparr>
   \<and> \<not> df_empty \<lparr>columns = waste_columns,
            entries = [(0, [NaN, Num 5, NaN, Str ''2024-02-01''])]\<rparr>
   \<and> df_column \<lparr>columns = inventory_columns,
            entries = [(0, [NaN, Num 1, Str ''2024-02-01'', Str ''2024-06-01''])]\<rparr> ''Item''
       = Inr [NaN]
   \<and> home_page unnamed_item_fs = (Inl ValueError, unnamed_item_fs)"
  using home_page_all_items_missing [of unnamed_item_fs
      "\<lparr>columns = inventory_columns,
            entries = [(0, [NaN, Num 1, Str ''2024-02-01'', Str ''2024-06-01''])]\<rparr>"
      "\<lparr>columns = waste_columns,
            entries = [(0, [NaN, Num 5, NaN, Str ''2024-02-01''])]\<rparr>"]
    load_unnamed_item_inventory load_unnamed_item_waste
  by (simp add: df_empty_def waste_columns_def inventory_columns_def rows_of_def cell_at_def
      df_column_def)

section \<open>The report when some item is named\<close>

text \<open>
  Outside the case above the Home page does report a maximum: when the Waste Log
  has a row whose \<^verbatim>\<open>Item\<close> is not missing (and its quantities are integers, as the
  app writes them), the page names one of the items present whose total is
  largest, with that total.  Which of several items with the largest total is
  named is left open by the statement.
\<close>

lemma set_insert_key: "set (insert_key k xs) = insert k (set xs)"
  by (induction xs) auto

lemma set_sort_keys: "set (sort_keys ks) = set ks"
  by (induction ks) (simp_all add: sort_keys_def set_insert_key)

lemma first_max_is_max:
  "first_max b ps \<in> set (b # ps) \<and> (\<forall>p \<in> set (b # ps). snd p \<le> snd (first_max b ps))"
proof (induction ps arbitrary: b)
  case Nil
  show ?case by simp
next
  case (Cons p ps)
  from Cons.IH[of "if snd b < snd p then p else b"] show ?case
    by (cases "snd b < snd p") (auto intro: order_trans less_imp_le)
qed

lemma fold_max_is_Max: "fold max xs (a::int) = Max (set (a # xs))"
  by (rule Max.set_eq_fold[symmetric])

lemma group_rows:
  assumes "k \<noteq> NaN"
  shows "filter (\<lambda>p. fst p = k) (filter (\<lambda>p. fst p \<noteq> NaN) (map (\<lambda>r. (f r, g r)) rows))
           = map (\<lambda>r. (f r, g r)) (filter (\<lambda>r. f r = k) rows)"
  using assms by (induction rows) auto

lemma kept_keys:
  "map fst (filter (\<lambda>p. fst p \<noteq> NaN) (map (\<lambda>r. (f r, g r)) rows))
     = filter (\<lambda>k. k \<noteq> NaN) (map f rows)"
  by (induction rows) auto

lemma groupby_sum_totals:
  assumes "''Item'' \<in> set (columns df)" and "''Quantity Wasted'' \<in> set (columns df)"
    and "\<forall>r \<in> set (rows_of df). is_Num (cell_at (columns df) r ''Quantity Wasted'')"
  shows "\<exists>ks. groupby_sum df ''Item'' ''Quantity Wasted'' = Inr (map (\<lambda>k. (k, item_total df k)) ks)
           \<and> set ks = items_of df"
proof -
  let ?f = "\<lambda>r. cell_at (columns df) r ''Item''"
  let ?g = "\<lambda>r. cell_at (columns df) r ''Quantity Wasted''"
  let ?kept = "filter (\<lambda>p. fst p \<noteq> NaN) (map (\<lambda>r. (?f r, ?g r)) (rows_of df))"
  let ?ks = "sort_keys (remdups (map fst ?kept))"
  have nums: "list_all (\<lambda>p. is_Num (snd p)) ?kept"
    using assms(3) by (auto simp: list_all_iff)
  have keys: "set ?ks = items_of df"
    by (auto simp: set_sort_keys kept_keys items_of_def)
  have total: "sum_list (map (\<lambda>p. num_of (snd p)) (filter (\<lambda>p. fst p = k) ?kept)) = item_total df k"
    if "k \<in> set ?ks" for k
  proof -
    from that keys have k: "k \<noteq> NaN" by (simp add: items_of_def)
    show ?thesis
      unfolding group_rows[OF k] item_total_def by (simp add: comp_def)
  qed
  have eq: "map (\<lambda>k. (k, sum_list (map (\<lambda>p. num_of (snd p)) (filter (\<lambda>p. fst p = k) ?kept)))) ?ks
          = map (\<lambda>k. (k, item_total df k)) ?ks"
    by (rule map_cong[OF refl]) (simp only: total)
  have "groupby_sum df ''Item'' ''Quantity Wasted''
          = Inr (map (\<lambda>k. (k, sum_list (map (\<lambda>p. num_of (snd p)) (filter (\<lambda>p. fst p = k) ?kept)))) ?ks)"
    unfolding groupby_sum_def Let_def
    by (simp only: assms(1,2) nums simp_thms if_False)
  then have "groupby_sum df ''Item'' ''Quantity Wasted'' = Inr (map (\<lambda>k. (k, item_total df k)) ?ks)"
    by (simp only: eq)
  with keys show ?thesis by blast
qed

lemma idxmax_totals:
  assumes "ks \<noteq> []"
  shows "\<exists>k \<in> set ks. idxmax (sort_values_desc (map (\<lambda>k. (k, t k)) ks)) = Inr k
           \<and> (\<forall>k' \<in> set ks. t k' \<le> t k)"
proof -
  define s where "s = sort_values_desc (map (\<lambda>k. (k, t k)) ks)"
  have set_s: "set s = (\<lambda>k. (k, t k)) ` set ks"
    by (simp add: s_def sort_values_desc_def)
  have "length s = length ks"
    by (simp add: s_def sort_values_desc_def)
  with assms have "s \<noteq> []" by auto
  then obtain p ps where s: "s = p # ps" by (cases s) auto
  define m where "m = first_max p ps"
  from first_max_is_max[of p ps]
  have m: "m \<in> set s" "\<forall>q \<in> set s. snd q \<le> snd m"
    unfolding m_def s by blast+
  from m(1) have "m \<in> (\<lambda>k. (k, t k)) ` set ks" by (simp only: set_s)
  then obtain k where k: "k \<in> set ks" "m = (k, t k)" by blast
  have "\<forall>k' \<in> set ks. t k' \<le> t k"
  proof
    fix k' assume "k' \<in> set ks"
    then have "(k', t k') \<in> set s" unfolding set_s by blast
    with m(2) have "snd (k', t k') \<le> snd m" by blast
    then show "t k' \<le> t k" by (simp add: k(2))
  qed
  moreover have "idxmax s = Inr k"
    by (simp add: s m_def[symmetric] k(2))
  ultimately show ?thesis using k(1) unfolding s_def by blast
qed

lemma int_max_totals:
  assumes "k \<in> set ks" and "\<forall>k' \<in> set ks. t k' \<le> (t k :: int)"
  shows "int_max (map (\<lambda>k. (k, t k)) ks) = Inr (t k)"
proof -
  from assms(1) obtain k0 ks' where ks: "ks = k0 # ks'" by (cases ks) auto
  have "Max (set (map t ks)) = t k"
  proof (rule Max_eqI)
    show "finite (set (map t ks))" by simp
    show "y \<le> t k" if "y \<in> set (map t ks)" for y using that assms(2) by auto
    show "t k \<in> set (map t ks)" using assms(1) by simp
  qed
  then show ?thesis
    by (simp add: ks fold_max_is_Max comp_def)
qed

text \<open>The most wasted item is one with the largest total.\<close>

lemma home_page_reports_maximum:
  assumes inv: "load_inventory fs = Inr inv_df" and waste: "load_waste_log fs = Inr waste_df"
    and item: "''Item'' \<in> set (columns waste_df)"
    and qty: "''Quantity Wasted'' \<in> set (columns waste_df)"
    and nums: "\<forall>r \<in> set (rows_of waste_df). is_Num (cell_at (columns waste_df) r ''Quantity Wasted'')"
    and some: "items_of waste_df \<noteq> {}"
  shows "\<exists>k \<in> items_of waste_df.
           fst (home_page fs)
             = Inr [Metric ''Inventory Items'' (len inv_df), Metric ''Waste Records'' (len waste_df),
                    MostWasted k (item_total waste_df k)]
           \<and> (\<forall>k' \<in> items_of waste_df. item_total waste_df k' \<le> item_total waste_df k)"
proof -
  from groupby_sum_totals[OF item qty nums] obtain ks where
    g: "groupby_sum waste_df ''Item'' ''Quantity Wasted'' = Inr (map (\<lambda>k. (k, item_total waste_df k)) ks)"
    and ks: "set ks = items_of waste_df"
    by blast
  from some ks have "ks \<noteq> []" by auto
  from idxmax_totals[OF this, of "item_total waste_df"] obtain k where
    k: "k \<in> set ks"
       "idxmax (sort_values_desc (map (\<lambda>k. (k, item_total waste_df k)) ks)) = Inr k"
       "\<forall>k' \<in> set ks. item_total waste_df k' \<le> item_total waste_df k"
    by blast
  note top = int_max_totals[OF k(1) k(3)]
  have "rows_of waste_df \<noteq> []"
    using some by (auto simp: items_of_def)
  then have ne: "\<not> df_empty waste_df"
    using item by (auto simp: df_empty_def rows_of_def)
  have "fst (home_page fs)
          = Inr [Metric ''Inventory Items'' (len inv_df), Metric ''Waste Records'' (len waste_df),
                 MostWasted k (item_total waste_df k)]"
    by (simp add: home_page_def Let_def inv waste ne g k(2) top)
  with k(1,3) ks show ?thesis by blast
qed

lemma home_page_reports_maximum_example:
  "\<exists>k \<in> items_of example_waste_df.
     fst (home_page example_fs)
       = Inr [Metric ''Inventory Items'' 2, Metric ''Waste Records'' 3,
              MostWasted k (item_total example_waste_df k)]
     \<and> (\<forall>k' \<in> items_of example_waste_df. item_total example_waste_df k' \<le> item_total example_waste_df k)"
proof -
  have cols: "''Item'' \<in> set (columns example_waste_df)"
    "''Quantity Wasted'' \<in> set (columns example_waste_df)"
    by (simp_all add: example_waste_df_def waste_columns_def)
  have nums: "\<forall>r \<in> set (rows_of example_waste_df).
      is_Num (cell_at (columns example_waste_df) r ''Quantity Wasted'')"
    by (simp add: example_waste_df_def waste_columns_def rows_of_def cell_at_def)
  have "Str ''Rice'' \<in> items_of example_waste_df"
    by (simp add: items_of_def example_waste_df_def waste_columns_def rows_of_def cell_at_def)
  then have some: "items_of example_waste_df \<noteq> {}" by blast
  have lens: "len example_inventory_df = 2" "len example_waste_df = 3"
    by (simp_all add: len_def example_inventory_df_def example_waste_df_def)
  from home_page_reports_maximum[OF load_inventory_example load_waste_log_example cols nums some]
  show ?thesis by (simp only: lens)
qed

end
